theory Spec2Isabelle
  imports Main "HOL-Library.Word"
begin

section \<open>Strings: the JavaScript operations used by the validator\<close>

text \<open>
  A JavaScript string is a sequence of UTF-16 code units. \<open>js\<close> embeds a literal of
  the source, whose characters are all ASCII.
\<close>

type_synonym jsstring = "16 word list"

definition js :: "string \<Rightarrow> jsstring" where
  "js s = map (\<lambda>c. of_nat (of_char c)) s"

text \<open>
  \<^verbatim>\<open>String.prototype.trim\<close> removes the leading and trailing white space and line
  terminators of ECMAScript: TAB, LF, VT, FF, CR, SPACE, NO-BREAK SPACE, the other
  space separators of Unicode (U+1680, U+2000..U+200A, U+202F, U+205F, U+3000), LINE
  and PARAGRAPH SEPARATOR, and U+FEFF.
\<close>

definition isWhiteSpace :: "16 word \<Rightarrow> bool" where
  "isWhiteSpace u \<longleftrightarrow>
     u \<in> {0x0009, 0x000A, 0x000B, 0x000C, 0x000D, 0x0020, 0x00A0, 0x1680,
           0x2000, 0x2001, 0x2002, 0x2003, 0x2004, 0x2005, 0x2006, 0x2007,
           0x2008, 0x2009, 0x200A, 0x2028, 0x2029, 0x202F, 0x205F, 0x3000, 0xFEFF}"

definition trim :: "jsstring \<Rightarrow> jsstring" where
  "trim s = rev (dropWhile isWhiteSpace (rev (dropWhile isWhiteSpace s)))"

text \<open>
  \<^verbatim>\<open>String.prototype.toLowerCase\<close> reads the string as code points (a high surrogate
  followed by a low surrogate is one code point, any other code unit is a code point
  by itself), lower-cases them by the Unicode Default Case Conversion, and writes the
  result as UTF-16 again.
\<close>

fun StringToCodePoints :: "jsstring \<Rightarrow> nat list" where
  "StringToCodePoints [] = []"
| "StringToCodePoints [u] = [unat u]"
| "StringToCodePoints (u # v # s) =
     (if 0xD800 \<le> u \<and> u \<le> 0xDBFF \<and> 0xDC00 \<le> v \<and> v \<le> 0xDFFF
      then (0x10000 + (unat u - 0xD800) * 0x400 + (unat v - 0xDC00)) # StringToCodePoints s
      else unat u # StringToCodePoints (v # s))"

definition UTF16EncodeCodePoint :: "nat \<Rightarrow> jsstring" where
  "UTF16EncodeCodePoint cp =
     (if cp < 0x10000 then [of_nat cp]
      else [of_nat (0xD800 + (cp - 0x10000) div 0x400),
            of_nat (0xDC00 + (cp - 0x10000) mod 0x400)])"

definition CodePointsToString :: "nat list \<Rightarrow> jsstring" where
  "CodePointsToString cps = concat (map UTF16EncodeCodePoint cps)"

text \<open>
  The data of the Unicode Character Database, version 14.0. \<open>lowercase_ranges\<close> is
  the simple lower-case mapping of \<^verbatim>\<open>UnicodeData.txt\<close>: an entry
  \<open>(first, last, step, delta)\<close> maps the code points \<open>first, first + step, ...\<close> up to
  \<open>last\<close> to the code point \<open>delta\<close> further. \<open>cased_ranges\<close> and
  \<open>case_ignorable_ranges\<close> are the properties Cased and Case_Ignorable of
  \<^verbatim>\<open>DerivedCoreProperties.txt\<close>, as closed intervals.
\<close>

definition lowercase_ranges :: "(nat \<times> nat \<times> nat \<times> int) list" where
  "lowercase_ranges =
     [(65, 90, 1, 32), (192, 214, 1, 32), (216, 222, 1, 32), (256, 302, 2, 1),
      (304, 304, 1, - 199), (306, 310, 2, 1), (313, 327, 2, 1), (330, 374, 2, 1),
      (376, 376, 1, - 121), (377, 381, 2, 1), (385, 385, 1, 210), (386, 388, 2, 1),
      (390, 390, 1, 206), (391, 391, 1, 1), (393, 394, 1, 205), (395, 395, 1, 1),
      (398, 398, 1, 79), (399, 399, 1, 202), (400, 400, 1, 203), (401, 401, 1, 1),
      (403, 403, 1, 205), (404, 404, 1, 207), (406, 406, 1, 211), (407, 407, 1, 209),
      (408, 408, 1, 1), (412, 412, 1, 211), (413, 413, 1, 213), (415, 415, 1, 214),
      (416, 420, 2, 1), (422, 422, 1, 218), (423, 423, 1, 1), (425, 425, 1, 218),
      (428, 428, 1, 1), (430, 430, 1, 218), (431, 431, 1, 1), (433, 434, 1, 217),
      (435, 437, 2, 1), (439, 439, 1, 219), (440, 440, 1, 1), (444, 444, 1, 1),
      (452, 452, 1, 2), (453, 453, 1, 1), (455, 455, 1, 2), (456, 456, 1, 1),
      (458, 458, 1, 2), (459, 475, 2, 1), (478, 494, 2, 1), (497, 497, 1, 2),
      (498, 500, 2, 1), (502, 502, 1, - 97), (503, 503, 1, - 56), (504, 542, 2, 1),
      (544, 544, 1, - 130), (546, 562, 2, 1), (570, 570, 1, 10795), (571, 571, 1, 1),
      (573, 573, 1, - 163), (574, 574, 1, 10792), (577, 577, 1, 1), (579, 579, 1, - 195),
      (580, 580, 1, 69), (581, 581, 1, 71), (582, 590, 2, 1), (880, 882, 2, 1),
      (886, 886, 1, 1), (895, 895, 1, 116), (902, 902, 1, 38), (904, 906, 1, 37),
      (908, 908, 1, 64), (910, 911, 1, 63), (913, 929, 1, 32), (931, 939, 1, 32),
      (975, 975, 1, 8), (984, 1006, 2, 1), (1012, 1012, 1, - 60), (1015, 1015, 1, 1),
      (1017, 1017, 1, - 7), (1018, 1018, 1, 1), (1021, 1023, 1, - 130), (1024, 1039, 1, 80),
      (1040, 1071, 1, 32), (1120, 1152, 2, 1), (1162, 1214, 2, 1), (1216, 1216, 1, 15),
      (1217, 1229, 2, 1), (1232, 1326, 2, 1), (1329, 1366, 1, 48), (4256, 4293, 1, 7264),
      (4295, 4295, 1, 7264), (4301, 4301, 1, 7264), (5024, 5103, 1, 38864), (5104, 5109, 1, 8),
      (7312, 7354, 1, - 3008), (7357, 7359, 1, - 3008), (7680, 7828, 2, 1), (7838, 7838, 1, - 7615),
      (7840, 7934, 2, 1), (7944, 7951, 1, - 8), (7960, 7965, 1, - 8), (7976, 7983, 1, - 8),
      (7992, 7999, 1, - 8), (8008, 8013, 1, - 8), (8025, 8031, 2, - 8), (8040, 8047, 1, - 8),
      (8072, 8079, 1, - 8), (8088, 8095, 1, - 8), (8104, 8111, 1, - 8), (8120, 8121, 1, - 8),
      (8122, 8123, 1, - 74), (8124, 8124, 1, - 9), (8136, 8139, 1, - 86), (8140, 8140, 1, - 9),
      (8152, 8153, 1, - 8), (8154, 8155, 1, - 100), (8168, 8169, 1, - 8), (8170, 8171, 1, - 112),
      (8172, 8172, 1, - 7), (8184, 8185, 1, - 128), (8186, 8187, 1, - 126), (8188, 8188, 1, - 9),
      (8486, 8486, 1, - 7517), (8490, 8490, 1, - 8383), (8491, 8491, 1, - 8262), (8498, 8498, 1, 28),
      (8544, 8559, 1, 16), (8579, 8579, 1, 1), (9398, 9423, 1, 26), (11264, 11311, 1, 48),
      (11360, 11360, 1, 1), (11362, 11362, 1, - 10743), (11363, 11363, 1, - 3814), (11364, 11364, 1, - 10727),
      (11367, 11371, 2, 1), (11373, 11373, 1, - 10780), (11374, 11374, 1, - 10749), (11375, 11375, 1, - 10783),
      (11376, 11376, 1, - 10782), (11378, 11378, 1, 1), (11381, 11381, 1, 1), (11390, 11391, 1, - 10815),
      (11392, 11490, 2, 1), (11499, 11501, 2, 1), (11506, 11506, 1, 1), (42560, 42604, 2, 1),
      (42624, 42650, 2, 1), (42786, 42798, 2, 1), (42802, 42862, 2, 1), (42873, 42875, 2, 1),
      (42877, 42877, 1, - 35332), (42878, 42886, 2, 1), (42891, 42891, 1, 1), (42893, 42893, 1, - 42280),
      (42896, 42898, 2, 1), (42902, 42920, 2, 1), (42922, 42922, 1, - 42308), (42923, 42923, 1, - 42319),
      (42924, 42924, 1, - 42315), (42925, 42925, 1, - 42305), (42926, 42926, 1, - 42308), (42928, 42928, 1, - 42258),
      (42929, 42929, 1, - 42282), (42930, 42930, 1, - 42261), (42931, 42931, 1, 928), (42932, 42946, 2, 1),
      (42948, 42948, 1, - 48), (42949, 42949, 1, - 42307), (42950, 42950, 1, - 35384), (42951, 42953, 2, 1),
      (42960, 42960, 1, 1), (42966, 42968, 2, 1), (42997, 42997, 1, 1), (65313, 65338, 1, 32),
      (66560, 66599, 1, 40), (66736, 66771, 1, 40), (66928, 66938, 1, 39), (66940, 66954, 1, 39),
      (66956, 66962, 1, 39), (66964, 66965, 1, 39), (68736, 68786, 1, 64), (71840, 71871, 1, 32),
      (93760, 93791, 1, 32), (125184, 125217, 1, 34)]"

definition cased_ranges :: "(nat \<times> nat) list" where
  "cased_ranges =
     [(65, 90), (97, 122), (170, 170), (181, 181), (186, 186), (192, 214),
      (216, 246), (248, 442), (444, 447), (452, 659), (661, 696), (704, 705),
      (736, 740), (837, 837), (880, 883), (886, 887), (890, 893), (895, 895),
      (902, 902), (904, 906), (908, 908), (910, 929), (931, 1013), (1015, 1153),
      (1162, 1327), (1329, 1366), (1376, 1416), (4256, 4293), (4295, 4295), (4301, 4301),
      (4304, 4346), (4349, 4351), (5024, 5109), (5112, 5117), (7296, 7304), (7312, 7354),
      (7357, 7359), (7424, 7615), (7680, 7957), (7960, 7965), (7968, 8005), (8008, 8013),
      (8016, 8023), (8025, 8025), (8027, 8027), (8029, 8029), (8031, 8061), (8064, 8116),
      (8118, 8124), (8126, 8126), (8130, 8132), (8134, 8140), (8144, 8147), (8150, 8155),
      (8160, 8172), (8178, 8180), (8182, 8188), (8305, 8305), (8319, 8319), (8336, 8348),
      (8450, 8450), (8455, 8455), (8458, 8467), (8469, 8469), (8473, 8477), (8484, 8484),
      (8486, 8486), (8488, 8488), (8490, 8493), (8495, 8500), (8505, 8505), (8508, 8511),
      (8517, 8521), (8526, 8526), (8544, 8575), (8579, 8580), (9398, 9449), (11264, 11492),
      (11499, 11502), (11506, 11507), (11520, 11557), (11559, 11559), (11565, 11565), (42560, 42605),
      (42624, 42653), (42786, 42887), (42891, 42894), (42896, 42954), (42960, 42961), (42963, 42963),
      (42965, 42969), (42997, 42998), (43000, 43002), (43824, 43866), (43868, 43880), (43888, 43967),
      (64256, 64262), (64275, 64279), (65313, 65338), (65345, 65370), (66560, 66639), (66736, 66771),
      (66776, 66811), (66928, 66938), (66940, 66954), (66956, 66962), (66964, 66965), (66967, 66977),
      (66979, 66993), (66995, 67001), (67003, 67004), (67456, 67456), (67459, 67461), (67463, 67504),
      (67506, 67514), (68736, 68786), (68800, 68850), (71840, 71903), (93760, 93823), (119808, 119892),
      (119894, 119964), (119966, 119967), (119970, 119970), (119973, 119974), (119977, 119980), (119982, 119993),
      (119995, 119995), (119997, 120003), (120005, 120069), (120071, 120074), (120077, 120084), (120086, 120092),
      (120094, 120121), (120123, 120126), (120128, 120132), (120134, 120134), (120138, 120144), (120146, 120485),
      (120488, 120512), (120514, 120538), (120540, 120570), (120572, 120596), (120598, 120628), (120630, 120654),
      (120656, 120686), (120688, 120712), (120714, 120744), (120746, 120770), (120772, 120779), (122624, 122633),
      (122635, 122654), (125184, 125251), (127280, 127305), (127312, 127337), (127344, 127369)]"

definition case_ignorable_ranges :: "(nat \<times> nat) list" where
  "case_ignorable_ranges =
     [(39, 39), (46, 46), (58, 58), (94, 94), (96, 96), (168, 168),
      (173, 173), (175, 175), (180, 180), (183, 184), (688, 879), (884, 885),
      (890, 890), (900, 901), (903, 903), (1155, 1161), (1369, 1369), (1375, 1375),
      (1425, 1469), (1471, 1471), (1473, 1474), (1476, 1477), (1479, 1479), (1524, 1524),
      (1536, 1541), (1552, 1562), (1564, 1564), (1600, 1600), (1611, 1631), (1648, 1648),
      (1750, 1757), (1759, 1768), (1770, 1773), (1807, 1807), (1809, 1809), (1840, 1866),
      (1958, 1968), (2027, 2037), (2042, 2042), (2045, 2045), (2070, 2093), (2137, 2139),
      (2184, 2184), (2192, 2193), (2200, 2207), (2249, 2306), (2362, 2362), (2364, 2364),
      (2369, 2376), (2381, 2381), (2385, 2391), (2402, 2403), (2417, 2417), (2433, 2433),
      (2492, 2492), (2497, 2500), (2509, 2509), (2530, 2531), (2558, 2558), (2561, 2562),
      (2620, 2620), (2625, 2626), (2631, 2632), (2635, 2637), (2641, 2641), (2672, 2673),
      (2677, 2677), (2689, 2690), (2748, 2748), (2753, 2757), (2759, 2760), (2765, 2765),
      (2786, 2787), (2810, 2815), (2817, 2817), (2876, 2876), (2879, 2879), (2881, 2884),
      (2893, 2893), (2901, 2902), (2914, 2915), (2946, 2946), (3008, 3008), (3021, 3021),
      (3072, 3072), (3076, 3076), (3132, 3132), (3134, 3136), (3142, 3144), (3146, 3149),
      (3157, 3158), (3170, 3171), (3201, 3201), (3260, 3260), (3263, 3263), (3270, 3270),
      (3276, 3277), (3298, 3299), (3328, 3329), (3387, 3388), (3393, 3396), (3405, 3405),
      (3426, 3427), (3457, 3457), (3530, 3530), (3538, 3540), (3542, 3542), (3633, 3633),
      (3636, 3642), (3654, 3662), (3761, 3761), (3764, 3772), (3782, 3782), (3784, 3789),
      (3864, 3865), (3893, 3893), (3895, 3895), (3897, 3897), (3953, 3966), (3968, 3972),
      (3974, 3975), (3981, 3991), (3993, 4028), (4038, 4038), (4141, 4144), (4146, 4151),
      (4153, 4154), (4157, 4158), (4184, 4185), (4190, 4192), (4209, 4212), (4226, 4226),
      (4229, 4230), (4237, 4237), (4253, 4253), (4348, 4348), (4957, 4959), (5906, 5908),
      (5938, 5939), (5970, 5971), (6002, 6003), (6068, 6069), (6071, 6077), (6086, 6086),
      (6089, 6099), (6103, 6103), (6109, 6109), (6155, 6159), (6211, 6211), (6277, 6278),
      (6313, 6313), (6432, 6434), (6439, 6440), (6450, 6450), (6457, 6459), (6679, 6680),
      (6683, 6683), (6742, 6742), (6744, 6750), (6752, 6752), (6754, 6754), (6757, 6764),
      (6771, 6780), (6783, 6783), (6823, 6823), (6832, 6862), (6912, 6915), (6964, 6964),
      (6966, 6970), (6972, 6972), (6978, 6978), (7019, 7027), (7040, 7041), (7074, 7077),
      (7080, 7081), (7083, 7085), (7142, 7142), (7144, 7145), (7149, 7149), (7151, 7153),
      (7212, 7219), (7222, 7223), (7288, 7293), (7376, 7378), (7380, 7392), (7394, 7400),
      (7405, 7405), (7412, 7412), (7416, 7417), (7468, 7530), (7544, 7544), (7579, 7679),
      (8125, 8125), (8127, 8129), (8141, 8143), (8157, 8159), (8173, 8175), (8189, 8190),
      (8203, 8207), (8216, 8217), (8228, 8228), (8231, 8231), (8234, 8238), (8288, 8292),
      (8294, 8303), (8305, 8305), (8319, 8319), (8336, 8348), (8400, 8432), (11388, 11389),
      (11503, 11505), (11631, 11631), (11647, 11647), (11744, 11775), (11823, 11823), (12293, 12293),
      (12330, 12333), (12337, 12341), (12347, 12347), (12441, 12446), (12540, 12542), (40981, 40981),
      (42232, 42237), (42508, 42508), (42607, 42610), (42612, 42621), (42623, 42623), (42652, 42655),
      (42736, 42737), (42752, 42785), (42864, 42864), (42888, 42890), (42994, 42996), (43000, 43001),
      (43010, 43010), (43014, 43014), (43019, 43019), (43045, 43046), (43052, 43052), (43204, 43205),
      (43232, 43249), (43263, 43263), (43302, 43309), (43335, 43345), (43392, 43394), (43443, 43443),
      (43446, 43449), (43452, 43453), (43471, 43471), (43493, 43494), (43561, 43566), (43569, 43570),
      (43573, 43574), (43587, 43587), (43596, 43596), (43632, 43632), (43644, 43644), (43696, 43696),
      (43698, 43700), (43703, 43704), (43710, 43711), (43713, 43713), (43741, 43741), (43756, 43757),
      (43763, 43764), (43766, 43766), (43867, 43871), (43881, 43883), (44005, 44005), (44008, 44008),
      (44013, 44013), (64286, 64286), (64434, 64450), (65024, 65039), (65043, 65043), (65056, 65071),
      (65106, 65106), (65109, 65109), (65279, 65279), (65287, 65287), (65294, 65294), (65306, 65306),
      (65342, 65342), (65344, 65344), (65392, 65392), (65438, 65439), (65507, 65507), (65529, 65531),
      (66045, 66045), (66272, 66272), (66422, 66426), (67456, 67461), (67463, 67504), (67506, 67514),
      (68097, 68099), (68101, 68102), (68108, 68111), (68152, 68154), (68159, 68159), (68325, 68326),
      (68900, 68903), (69291, 69292), (69446, 69456), (69506, 69509), (69633, 69633), (69688, 69702),
      (69744, 69744), (69747, 69748), (69759, 69761), (69811, 69814), (69817, 69818), (69821, 69821),
      (69826, 69826), (69837, 69837), (69888, 69890), (69927, 69931), (69933, 69940), (70003, 70003),
      (70016, 70017), (70070, 70078), (70089, 70092), (70095, 70095), (70191, 70193), (70196, 70196),
      (70198, 70199), (70206, 70206), (70367, 70367), (70371, 70378), (70400, 70401), (70459, 70460),
      (70464, 70464), (70502, 70508), (70512, 70516), (70712, 70719), (70722, 70724), (70726, 70726),
      (70750, 70750), (70835, 70840), (70842, 70842), (70847, 70848), (70850, 70851), (71090, 71093),
      (71100, 71101), (71103, 71104), (71132, 71133), (71219, 71226), (71229, 71229), (71231, 71232),
      (71339, 71339), (71341, 71341), (71344, 71349), (71351, 71351), (71453, 71455), (71458, 71461),
      (71463, 71467), (71727, 71735), (71737, 71738), (71995, 71996), (71998, 71998), (72003, 72003),
      (72148, 72151), (72154, 72155), (72160, 72160), (72193, 72202), (72243, 72248), (72251, 72254),
      (72263, 72263), (72273, 72278), (72281, 72283), (72330, 72342), (72344, 72345), (72752, 72758),
      (72760, 72765), (72767, 72767), (72850, 72871), (72874, 72880), (72882, 72883), (72885, 72886),
      (73009, 73014), (73018, 73018), (73020, 73021), (73023, 73029), (73031, 73031), (73104, 73105),
      (73109, 73109), (73111, 73111), (73459, 73460), (78896, 78904), (92912, 92916), (92976, 92982),
      (92992, 92995), (94031, 94031), (94095, 94111), (94176, 94177), (94179, 94180), (110576, 110579),
      (110581, 110587), (110589, 110590), (113821, 113822), (113824, 113827), (118528, 118573), (118576, 118598),
      (119143, 119145), (119155, 119170), (119173, 119179), (119210, 119213), (119362, 119364), (121344, 121398),
      (121403, 121452), (121461, 121461), (121476, 121476), (121499, 121503), (121505, 121519), (122880, 122886),
      (122888, 122904), (122907, 122913), (122915, 122916), (122918, 122922), (123184, 123197), (123566, 123566),
      (123628, 123631), (125136, 125142), (125252, 125259), (127995, 127999), (917505, 917505), (917536, 917631),
      (917760, 917999)]"

definition in_ranges :: "(nat \<times> nat) list \<Rightarrow> nat \<Rightarrow> bool" where
  "in_ranges rs cp = list_ex (\<lambda>(lo, hi). lo \<le> cp \<and> cp \<le> hi) rs"

definition Cased :: "nat \<Rightarrow> bool" where
  "Cased cp = in_ranges cased_ranges cp"

definition Case_Ignorable :: "nat \<Rightarrow> bool" where
  "Case_Ignorable cp = in_ranges case_ignorable_ranges cp"

definition simple_lowercase :: "nat \<Rightarrow> nat" where
  "simple_lowercase cp =
     (case find (\<lambda>(lo, hi, step, delta). lo \<le> cp \<and> cp \<le> hi \<and> (cp - lo) mod step = 0)
             lowercase_ranges of
        None \<Rightarrow> cp
      | Some (lo, hi, step, delta) \<Rightarrow> nat (int cp + delta))"

text \<open>
  The two rules of \<^verbatim>\<open>SpecialCasing.txt\<close> that apply without a locale. U+0130 becomes
  U+0069 U+0307. U+03A3 (capital sigma) becomes the final sigma U+03C2 in the context
  Final_Sigma and keeps its simple mapping U+03C3 elsewhere. Final_Sigma holds when,
  skipping case-ignorable code points, the sigma comes after a cased letter and does
  not come before one; \<open>before\<close> is the part of the string in front of the sigma, in
  reverse order.
\<close>

definition lowercase_mapping :: "nat \<Rightarrow> nat list" where
  "lowercase_mapping c = (if c = 0x0130 then [0x0069, 0x0307] else [simple_lowercase c])"

definition Final_Sigma :: "nat list \<Rightarrow> nat list \<Rightarrow> bool" where
  "Final_Sigma before after \<longleftrightarrow>
     (case dropWhile Case_Ignorable before of [] \<Rightarrow> False | c # _ \<Rightarrow> Cased c)
     \<and> (case dropWhile Case_Ignorable after of [] \<Rightarrow> True | c # _ \<Rightarrow> \<not> Cased c)"

fun toLowercase :: "nat list \<Rightarrow> nat list \<Rightarrow> nat list" where
  "toLowercase before [] = []"
| "toLowercase before (c # after) =
     (if c = 0x03A3 \<and> Final_Sigma before after then [0x03C2] else lowercase_mapping c)
     @ toLowercase (c # before) after"

definition toLowerCase :: "jsstring \<Rightarrow> jsstring" where
  "toLowerCase s = CodePointsToString (toLowercase [] (StringToCodePoints s))"

text \<open>
  Lines 68-76 of \<^verbatim>\<open>submit.ts\<close>: the branch is on \<^verbatim>\<open>question_type === 'mcq'\<close>, and
  every other question type takes the lower-casing comparison.
\<close>

definition validate_answer :: "jsstring \<Rightarrow> jsstring \<Rightarrow> jsstring \<Rightarrow> bool" where
  "validate_answer qtype answer correct =
     (if qtype = js ''mcq'' then trim answer = trim correct
      else toLowerCase (trim answer) = toLowerCase (trim correct))"

subsection \<open>Text sent to the database\<close>

text \<open>
  The driver sends a string parameter as UTF-8, which has no encoding for a surrogate
  without its partner: each one is replaced by U+FFFD. The database refuses a text
  that contains U+0000, and the statement throws.
\<close>

fun utf8_text :: "jsstring \<Rightarrow> jsstring" where
  "utf8_text [] = []"
| "utf8_text [u] = [if 0xD800 \<le> u \<and> u \<le> 0xDFFF then 0xFFFD else u]"
| "utf8_text (u # v # s) =
     (if 0xD800 \<le> u \<and> u \<le> 0xDBFF \<and> 0xDC00 \<le> v \<and> v \<le> 0xDFFF
      then u # v # utf8_text s
      else (if 0xD800 \<le> u \<and> u \<le> 0xDFFF then 0xFFFD else u) # utf8_text (v # s))"

definition pg_refuses :: "jsstring \<Rightarrow> bool" where
  "pg_refuses s \<longleftrightarrow> 0 \<in> set s"

text \<open>
  So the value of a text column is a string without U+0000; \<open>text_of\<close> is the string
  that a SELECT returns for it. \<open>pg_text s\<close> is the value that a text column gets when
  the string \<open>s\<close> is sent for it, and \<^const>\<open>None\<close> when the database refuses \<open>s\<close>.
\<close>

typedef pgtext = "{s :: jsstring. \<not> pg_refuses s}"
  morphisms text_of Abs_pgtext
  by (rule exI [of _ "[]"]) (simp add: pg_refuses_def)

setup_lifting type_definition_pgtext

lift_definition (code_dt) pg_text :: "jsstring \<Rightarrow> pgtext option" is
  "\<lambda>s. if pg_refuses s then None else Some (utf8_text s)"
proof -
  fix s :: jsstring
  have "0 \<in> set (utf8_text s) \<Longrightarrow> 0 \<in> set s"
    by (induction s rule: utf8_text.induct) (auto split: if_splits)
  then show "pred_option (\<lambda>s. \<not> pg_refuses s)
               (if pg_refuses s then None else Some (utf8_text s))"
    by (auto simp: pg_refuses_def)
qed

text \<open>A text column with the characters of a literal.\<close>

lift_definition pg_literal :: "string \<Rightarrow> pgtext" is "\<lambda>s. removeAll 0 (js s)"
  by (simp add: pg_refuses_def)

subsection \<open>The validator as the specification words it\<close>

text \<open>
  "Trimming surrounding whitespace": \<open>t\<close> is what is left of \<open>s\<close> when a run of white
  space is taken from the front and another from the back, and \<open>t\<close> neither starts nor
  ends with white space.
\<close>

definition trimmed_of :: "jsstring \<Rightarrow> jsstring \<Rightarrow> bool" where
  "trimmed_of s t \<longleftrightarrow>
     (\<exists>pre post. s = pre @ t @ post
        \<and> (\<forall>c \<in> set pre. isWhiteSpace c) \<and> (\<forall>c \<in> set post. isWhiteSpace c)
        \<and> (t \<noteq> [] \<longrightarrow> \<not> isWhiteSpace (hd t) \<and> \<not> isWhiteSpace (last t)))"

definition spec_mcq_match :: "jsstring \<Rightarrow> jsstring \<Rightarrow> bool" where
  "spec_mcq_match a c \<longleftrightarrow> (\<exists>t. trimmed_of a t \<and> trimmed_of c t)"

text \<open>
  "Case-folding to a single canonical case": every code point is replaced by its
  lower-case form, one code point at a time.
\<close>

definition case_fold :: "jsstring \<Rightarrow> jsstring" where
  "case_fold s = CodePointsToString (concat (map lowercase_mapping (StringToCodePoints s)))"

definition spec_short_match :: "jsstring \<Rightarrow> jsstring \<Rightarrow> bool" where
  "spec_short_match a c \<longleftrightarrow>
     (\<exists>ta tc. trimmed_of a ta \<and> trimmed_of c tc \<and> case_fold ta = case_fold tc)"

text \<open>
  Two strings of ASCII characters that differ at most in the case of their letters:
  the letters are spelled out, upper case above lower case.
\<close>

definition ascii_case_pairs :: "(16 word \<times> 16 word) list" where
  "ascii_case_pairs =
     zip (js ''ABCDEFGHIJKLMNOPQRSTUVWXYZ'') (js ''abcdefghijklmnopqrstuvwxyz'')"

definition same_letter :: "16 word \<Rightarrow> 16 word \<Rightarrow> bool" where
  "same_letter x y \<longleftrightarrow>
     x = y \<or> (x, y) \<in> set ascii_case_pairs \<or> (y, x) \<in> set ascii_case_pairs"

definition equal_up_to_case :: "jsstring \<Rightarrow> jsstring \<Rightarrow> bool" where
  "equal_up_to_case s t \<longleftrightarrow> list_all2 same_letter s t"

section \<open>Numbers\<close>

text \<open>
  The handler holds the reward and the escrow balance as \<^verbatim>\<open>BigInt\<close> values (type
  \<^typ>\<open>int\<close> here) and converts the reward with \<^verbatim>\<open>Number(reward)\<close> for the JSON
  response. \<^verbatim>\<open>Number\<close> of a BigInt is the nearest IEEE double, ties to the even
  significand: exact up to 53 bits, and rounded to 53 significant bits above (for
  magnitudes below the overflow threshold of a double, which every SQL integer is).
  Identifiers, \<^verbatim>\<open>max_acceptances\<close> and the row count are JavaScript numbers in the
  handler; they are taken as integers that a number holds exactly, on which
  \<^verbatim>\<open>Number\<close> is the identity.
\<close>

fun bit_length :: "nat \<Rightarrow> nat" where
  "bit_length n = (if n = 0 then 0 else Suc (bit_length (n div 2)))"

declare bit_length.simps [simp del]

definition Number_of_BigInt :: "int \<Rightarrow> int" where
  "Number_of_BigInt n =
     (let a = nat \<bar>n\<bar>
      in if a < 2 ^ 53 then n
         else (let k = bit_length a - 53;
                   q = a div 2 ^ k;
                   r = a mod 2 ^ k;
                   q' = (if 2 ^ k < 2 * r \<or> (2 * r = 2 ^ k \<and> odd q) then q + 1 else q)
               in sgn n * int (q' * 2 ^ k)))"

section \<open>The tables\<close>

text \<open>
  The columns of \<^verbatim>\<open>tasks\<close> are those of the INSERT of \<^verbatim>\<open>official.ts\<close>; timestamps
  are milliseconds, \<^verbatim>\<open>NULL\<close> is \<^const>\<open>None\<close>. \<^verbatim>\<open>type\<close> and \<^verbatim>\<open>status\<close> are only
  written from literals of the source and compared with them. The columns of
  \<^verbatim>\<open>submissions\<close> are those of the INSERT of \<^verbatim>\<open>submit.ts\<close> (prefixed, since the
  handler's own variables have the same names). \<^verbatim>\<open>users\<close> maps a user id to its
  \<^verbatim>\<open>points\<close>. The column types belong to the table definitions, which are not in
  the repository: an integer column holds any integer here, and a text column any text.
\<close>

record Task =
  creator_id :: "int option"
  type :: string
  question :: pgtext
  question_type :: pgtext
  choices :: "pgtext option"
  correct_answer :: pgtext
  reward_per_completion :: int
  max_acceptances :: int
  cost :: int
  fee :: int
  escrow_balance :: int
  status :: string
  starts_at :: "int option"
  ends_at :: "int option"

record Submission =
  sub_task_id :: int
  sub_user_id :: int
  sub_answer :: pgtext
  sub_is_correct :: bool
  sub_awarded_points :: int
  sub_validated_at :: int

record Database =
  tasks :: "int \<rightharpoonup> Task"
  tasks_id_seq :: int
  submissions :: "Submission list"
  users :: "int \<rightharpoonup> int"

subsection \<open>Responses\<close>

text \<open>
  \<^verbatim>\<open>res.status(code).json(body)\<close>: the status code and the body. The record has the
  fields of both \<^verbatim>\<open>ApiResp\<close> types (the one of \<^verbatim>\<open>submit.ts\<close> and the one of
  \<^verbatim>\<open>official.ts\<close>); an absent field is \<^const>\<open>None\<close>.
\<close>

record ApiResp =
  success :: bool
  error :: "string option"
  is_correct :: "bool option"
  awarded_points :: "int option"
  taskId :: "int option"

type_synonym Response = "nat \<times> ApiResp"

definition json_error :: "nat \<Rightarrow> string \<Rightarrow> Response" where
  "json_error code msg =
     (code, \<lparr>success = False, error = Some msg, is_correct = None,
             awarded_points = None, taskId = None\<rparr>)"

definition json_settled :: "bool \<Rightarrow> int \<Rightarrow> Response" where
  "json_settled ok points =
     (200, \<lparr>success = True, error = None, is_correct = Some ok,
            awarded_points = Some points, taskId = None\<rparr>)"

definition json_created :: "int \<Rightarrow> Response" where
  "json_created new_id =
     (200, \<lparr>success = True, error = None, is_correct = None,
            awarded_points = None, taskId = Some new_id\<rparr>)"

section \<open>The transaction of \<^verbatim>\<open>submit.ts\<close>\<close>

text \<open>
  A transaction works on its own copy of the database: \<^verbatim>\<open>BEGIN\<close> takes the copy,
  every statement reads and writes the copy, \<^verbatim>\<open>COMMIT\<close> makes the copy the database
  and \<^verbatim>\<open>ROLLBACK\<close> throws it away. The row lock of \<^verbatim>\<open>FOR UPDATE\<close> orders the
  transactions on one task, so a handler run is one step on the database.

  A statement that the database refuses throws, and the \<^verbatim>\<open>catch\<close> branch (lines
  123-126) rolls the transaction back and answers 500. The statements of the handler
  take the task identifier, the user identifier, the reward and the answer as
  parameters; the refusal that these decide is the one of a text with U+0000, which
  only the two INSERT statements can meet, since they alone send the answer. A
  statement that returns \<^const>\<open>None\<close> has thrown. Failures of the connection and
  refusals by constraints of the table definitions, which are not in the repository,
  are not part of the model.
\<close>

definition BEGIN :: "Database \<Rightarrow> Database" where
  "BEGIN db = db"

definition COMMIT :: "Database \<Rightarrow> Database \<Rightarrow> Database" where
  "COMMIT db tx = tx"

definition ROLLBACK :: "Database \<Rightarrow> Database \<Rightarrow> Database" where
  "ROLLBACK db tx = db"

text \<open>\<^verbatim>\<open>SELECT * FROM tasks WHERE id = $1 FOR UPDATE\<close>\<close>

definition select_task :: "Database \<Rightarrow> int \<Rightarrow> Task option" where
  "select_task tx tid = tasks tx tid"

text \<open>\<^verbatim>\<open>SELECT * FROM submissions WHERE task_id = $1 AND user_id = $2\<close>\<close>

definition select_submissions :: "Database \<Rightarrow> int \<Rightarrow> int \<Rightarrow> Submission list" where
  "select_submissions tx tid uid =
     filter (\<lambda>s. sub_task_id s = tid \<and> sub_user_id s = uid) (submissions tx)"

text \<open>\<^verbatim>\<open>UPDATE tasks SET status='closed' WHERE id = $1\<close>\<close>

definition close_task :: "Database \<Rightarrow> int \<Rightarrow> Database" where
  "close_task tx tid =
     (case tasks tx tid of
        None \<Rightarrow> tx
      | Some t \<Rightarrow> tx\<lparr>tasks := (tasks tx)(tid \<mapsto> t\<lparr>status := ''closed''\<rparr>)\<rparr>)"

text \<open>\<^verbatim>\<open>UPDATE tasks SET escrow_balance = escrow_balance - $1 WHERE id = $2\<close>\<close>

definition deduct_escrow :: "Database \<Rightarrow> int \<Rightarrow> int \<Rightarrow> Database" where
  "deduct_escrow tx reward tid =
     (case tasks tx tid of
        None \<Rightarrow> tx
      | Some t \<Rightarrow>
          tx\<lparr>tasks := (tasks tx)(tid \<mapsto> t\<lparr>escrow_balance := escrow_balance t - reward\<rparr>)\<rparr>)"

text \<open>
  \<^verbatim>\<open>INSERT INTO submissions (task_id, user_id, answer, is_correct, awarded_points,
  validated_at) VALUES ($1, $2, $3, ..., now())\<close>. \<open>dbNow\<close> is what \<^verbatim>\<open>now()\<close> returns:
  the start of the transaction on the clock of the database.
\<close>

definition insert_submission ::
  "Database \<Rightarrow> int \<Rightarrow> int \<Rightarrow> jsstring \<Rightarrow> bool \<Rightarrow> int \<Rightarrow> int \<Rightarrow> Database option" where
  "insert_submission tx tid uid answer ok points dbNow =
     (case pg_text answer of
        None \<Rightarrow> None
      | Some a \<Rightarrow>
          Some (tx\<lparr>submissions := submissions tx @
                  [\<lparr>sub_task_id = tid, sub_user_id = uid, sub_answer = a,
                    sub_is_correct = ok, sub_awarded_points = points,
                    sub_validated_at = dbNow\<rparr>]\<rparr>))"

text \<open>\<^verbatim>\<open>UPDATE users SET points = points + $1 WHERE id = $2\<close>\<close>

definition add_points :: "Database \<Rightarrow> int \<Rightarrow> int \<Rightarrow> Database" where
  "add_points tx reward uid =
     (case users tx uid of
        None \<Rightarrow> tx
      | Some p \<Rightarrow> tx\<lparr>users := (users tx)(uid \<mapsto> p + reward)\<rparr>)"

text \<open>\<^verbatim>\<open>SELECT COUNT(*) AS cnt FROM submissions WHERE task_id = $1 AND is_correct = true\<close>\<close>

definition count_correct :: "Database \<Rightarrow> int \<Rightarrow> nat" where
  "count_correct tx tid =
     length (filter (\<lambda>s. sub_task_id s = tid \<and> sub_is_correct s) (submissions tx))"

text \<open>
  Lines 29-129 of \<^verbatim>\<open>handler\<close> in \<^verbatim>\<open>submit.ts\<close>, in the order of the source. \<open>now\<close>
  is the handler's \<^verbatim>\<open>new Date()\<close> and \<open>dbNow\<close> the database's \<^verbatim>\<open>now()\<close>. The result
  is the response and the database after the handler has returned.
  \<^verbatim>\<open>task.creator_id && ...\<close> is false for \<^verbatim>\<open>NULL\<close> and for the number 0.
\<close>

definition submit ::
  "int \<Rightarrow> int \<Rightarrow> Database \<Rightarrow> int \<Rightarrow> int \<Rightarrow> jsstring \<Rightarrow> Response \<times> Database" where
  "submit now dbNow db task_id userId answer =
     (let tx = BEGIN db in
      case select_task tx task_id of
        None \<Rightarrow> (json_error 404 ''task not found'', ROLLBACK db tx)
      | Some task \<Rightarrow>
          if status task \<noteq> ''open'' then
            (json_error 400 ''task is not open'', ROLLBACK db tx)
          else if (case starts_at task of None \<Rightarrow> False | Some s \<Rightarrow> now < s) then
            (json_error 400 ''task not started yet'', ROLLBACK db tx)
          else if (case ends_at task of None \<Rightarrow> False | Some e \<Rightarrow> e < now) then
            (json_error 400 ''task expired'', ROLLBACK db tx)
          else if (case creator_id task of None \<Rightarrow> False | Some c \<Rightarrow> c \<noteq> 0 \<and> c = userId) then
            (json_error 400 ''creator cannot submit their own task'', ROLLBACK db tx)
          else if 0 < length (select_submissions tx task_id userId) then
            (json_error 400 ''user already submitted to this task'', ROLLBACK db tx)
          else if validate_answer (text_of (question_type task)) answer
                    (text_of (correct_answer task)) then
            (let reward = reward_per_completion task;
                 escrowBalance = escrow_balance task
             in if escrowBalance < reward then
                  (let tx1 = close_task tx task_id
                   in (json_error 400 ''insufficient escrow to pay reward; task closed'',
                       ROLLBACK db tx1))
                else
                  (let tx1 = deduct_escrow tx reward task_id
                   in case insert_submission tx1 task_id userId answer True reward dbNow of
                        None \<Rightarrow> (json_error 500 ''internal error'', ROLLBACK db tx1)
                      | Some tx2 \<Rightarrow>
                          (let tx3 = add_points tx2 reward userId;
                               correctCount = count_correct tx3 task_id;
                               tx4 = (if max_acceptances task \<le> int correctCount
                                      then close_task tx3 task_id else tx3)
                           in (json_settled True (Number_of_BigInt reward), COMMIT db tx4))))
          else
            (case insert_submission tx task_id userId answer False 0 dbNow of
               None \<Rightarrow> (json_error 500 ''internal error'', ROLLBACK db tx)
             | Some tx1 \<Rightarrow> (json_settled False 0, COMMIT db tx1)))"

text \<open>
  Lines 18-27: the request checks before the transaction. \<^verbatim>\<open>req_userId\<close> is what
  \<^verbatim>\<open>getUserIdFromAuthHeader\<close> returned (\<^const>\<open>None\<close> for \<^verbatim>\<open>null\<close>); \<^verbatim>\<open>!userId\<close>
  and \<^verbatim>\<open>!task_id\<close> also reject the number 0. The answer of a request is a string, as
  the specification has it, and \<^const>\<open>None\<close> when the body has no \<^verbatim>\<open>answer\<close>.
\<close>

record SubmitRequest =
  req_method :: string
  req_userId :: "int option"
  req_task_id :: "int option"
  req_answer :: "jsstring option"

definition handler :: "int \<Rightarrow> int \<Rightarrow> Database \<Rightarrow> SubmitRequest \<Rightarrow> Response \<times> Database" where
  "handler now dbNow db req =
     (if req_method req \<noteq> ''POST'' then (json_error 405 ''Method not allowed'', db)
      else case req_userId req of
        None \<Rightarrow> (json_error 401 ''Unauthorized'', db)
      | Some userId \<Rightarrow>
          if userId = 0 then (json_error 401 ''Unauthorized'', db)
          else (case (req_task_id req, req_answer req) of
                  (Some task_id, Some answer) \<Rightarrow>
                    if task_id = 0 then (json_error 400 ''task_id and answer are required'', db)
                    else submit now dbNow db task_id userId answer
                | _ \<Rightarrow> (json_error 400 ''task_id and answer are required'', db)))"

text \<open>
  A sequence of calls \<open>(now, dbNow, task_id, userId, answer)\<close>, one transaction after
  the other.
\<close>

fun submit_all :: "Database \<Rightarrow> (int \<times> int \<times> int \<times> int \<times> jsstring) list \<Rightarrow> Database" where
  "submit_all db [] = db"
| "submit_all db ((now, dbNow, task_id, userId, answer) # calls) =
     submit_all (snd (submit now dbNow db task_id userId answer)) calls"

section \<open>The request handler of \<^verbatim>\<open>official.ts\<close>\<close>

text \<open>
  A body field that the request leaves out is \<^const>\<open>None\<close>; the destructuring defaults
  are 0 for \<^verbatim>\<open>reward_per_completion\<close>, 1 for \<^verbatim>\<open>max_acceptances\<close> and \<^verbatim>\<open>null\<close> for
  the two timestamps. The three texts of a request are strings and its numbers are
  integers. \<^verbatim>\<open>o_choices\<close> is the pair of the truthiness of \<^verbatim>\<open>choices\<close> and its
  \<^verbatim>\<open>JSON.stringify\<close> text. The table definition is not part of the repository:
  \<open>row_ok\<close> stands for the constraints the table puts on a row, and the INSERT fails
  on a row that violates them or on an identifier that is taken. The identifier is the
  next value of the table's sequence, and the sequence stays advanced when the INSERT
  fails. A text parameter with U+0000 is refused before the statement runs.
\<close>

record OfficialRequest =
  o_method :: string
  o_admin_secret :: "string option"
  o_question :: "jsstring option"
  o_question_type :: "jsstring option"
  o_choices :: "(bool \<times> jsstring) option"
  o_correct_answer :: "jsstring option"
  o_reward_per_completion :: "int option"
  o_max_acceptances :: "int option"
  o_starts_at :: "int option"
  o_ends_at :: "int option"

definition falsy :: "string option \<Rightarrow> bool" where
  "falsy v = (case v of None \<Rightarrow> True | Some s \<Rightarrow> s = [])"

text \<open>\<^verbatim>\<open>choices ? JSON.stringify(choices) : null\<close>\<close>

definition choicesJson :: "OfficialRequest \<Rightarrow> jsstring option" where
  "choicesJson req =
     (case o_choices req of
        None \<Rightarrow> None
      | Some (truthy, text) \<Rightarrow> if truthy then Some text else None)"

text \<open>
  The value of the column \<^verbatim>\<open>choices\<close>: \<^verbatim>\<open>NULL\<close> for \<^verbatim>\<open>null\<close>, and otherwise as any
  text.
\<close>

definition pg_text_or_null :: "jsstring option \<Rightarrow> pgtext option option" where
  "pg_text_or_null v = (case v of None \<Rightarrow> Some None | Some s \<Rightarrow> map_option Some (pg_text s))"

text \<open>The row of the INSERT, from the request and the values of the four text columns.\<close>

definition official_row ::
  "OfficialRequest \<Rightarrow> pgtext \<Rightarrow> pgtext \<Rightarrow> pgtext option \<Rightarrow> pgtext \<Rightarrow> Task" where
  "official_row req q qtype ch correct =
     \<lparr>creator_id = None, type = ''official'', question = q,
      question_type = qtype, choices = ch, correct_answer = correct,
      reward_per_completion = (case o_reward_per_completion req of None \<Rightarrow> 0 | Some r \<Rightarrow> r),
      max_acceptances = (case o_max_acceptances req of None \<Rightarrow> 1 | Some m \<Rightarrow> m),
      cost = 0, fee = 0, escrow_balance = 0, status = ''open'',
      starts_at = o_starts_at req, ends_at = o_ends_at req\<rparr>"

definition official_handler ::
  "string option \<Rightarrow> (Task \<Rightarrow> bool) \<Rightarrow> Database \<Rightarrow> OfficialRequest \<Rightarrow> Response \<times> Database" where
  "official_handler adminSecret row_ok db req =
     (if o_method req \<noteq> ''POST'' then (json_error 405 ''Method not allowed'', db)
      else if falsy adminSecret then (json_error 500 ''Server not configured'', db)
      else if o_admin_secret req \<noteq> adminSecret then
        (json_error 403 ''Forbidden: invalid admin secret'', db)
      else
        (case (o_question req, o_question_type req, o_correct_answer req) of
           (Some q, Some qtype, Some correct) \<Rightarrow>
             if q = [] \<or> qtype = [] \<or> correct = [] then
               (json_error 400 ''question, question_type and correct_answer are required'', db)
             else
               (case (pg_text q, pg_text qtype, pg_text_or_null (choicesJson req),
                      pg_text correct) of
                  (Some q', Some qtype', Some ch, Some correct') \<Rightarrow>
                    (let new_id = tasks_id_seq db + 1;
                         db1 = db\<lparr>tasks_id_seq := new_id\<rparr>;
                         row = official_row req q' qtype' ch correct'
                     in if \<not> row_ok row \<or> tasks db1 new_id \<noteq> None then
                          (json_error 500 ''DB error'', db1)
                        else (json_created new_id,
                              db1\<lparr>tasks := (tasks db1)(new_id \<mapsto> row)\<rparr>))
                | _ \<Rightarrow> (json_error 500 ''DB error'', db))
         | _ \<Rightarrow>
             (json_error 400 ''question, question_type and correct_answer are required'', db)))"

section \<open>The settlement as the specification words it\<close>

text \<open>
  The error kinds of the specification, and the response of \<^verbatim>\<open>submit.ts\<close> that
  stands for each.
\<close>

datatype SettlementError =
  NotFound | TaskClosed | NotStarted | Expired | SelfSubmission | AlreadySubmitted
  | InsufficientEscrow

fun error_response :: "SettlementError \<Rightarrow> Response" where
  "error_response NotFound = json_error 404 ''task not found''"
| "error_response TaskClosed = json_error 400 ''task is not open''"
| "error_response NotStarted = json_error 400 ''task not started yet''"
| "error_response Expired = json_error 400 ''task expired''"
| "error_response SelfSubmission = json_error 400 ''creator cannot submit their own task''"
| "error_response AlreadySubmitted = json_error 400 ''user already submitted to this task''"
| "error_response InsufficientEscrow =
     json_error 400 ''insufficient escrow to pay reward; task closed''"

definition has_submission :: "Database \<Rightarrow> int \<Rightarrow> int \<Rightarrow> bool" where
  "has_submission db tid uid =
     (\<exists>s \<in> set (submissions db). sub_task_id s = tid \<and> sub_user_id s = uid)"

text \<open>
  The six preconditions of section 4.2, in the order of the specification: the first
  one that is violated, or \<^const>\<open>None\<close> when all six pass.
\<close>

definition precondition_failure :: "int \<Rightarrow> Database \<Rightarrow> int \<Rightarrow> int \<Rightarrow> SettlementError option" where
  "precondition_failure now db tid uid =
     (case tasks db tid of
        None \<Rightarrow> Some NotFound
      | Some t \<Rightarrow>
          if status t \<noteq> ''open'' then Some TaskClosed
          else if (case starts_at t of None \<Rightarrow> False | Some s \<Rightarrow> \<not> s \<le> now) then Some NotStarted
          else if (case ends_at t of None \<Rightarrow> False | Some e \<Rightarrow> \<not> now \<le> e) then Some Expired
          else if creator_id t = Some uid then Some SelfSubmission
          else if has_submission db tid uid then Some AlreadySubmitted
          else None)"

text \<open>The invariants of the data model.\<close>

definition escrow_nonneg :: "Database \<Rightarrow> bool" where
  "escrow_nonneg db \<longleftrightarrow> (\<forall>tid t. tasks db tid = Some t \<longrightarrow> 0 \<le> escrow_balance t)"

definition one_submission_per_pair :: "Database \<Rightarrow> bool" where
  "one_submission_per_pair db \<longleftrightarrow>
     distinct (map (\<lambda>s. (sub_task_id s, sub_user_id s)) (submissions db))"

text \<open>
  For one task: the correct submissions are at most \<open>max_acceptances\<close>, and the task
  is \<open>closed\<close> once they have reached it.
\<close>

definition acceptances_bounded :: "Database \<Rightarrow> int \<Rightarrow> bool" where
  "acceptances_bounded db tid \<longleftrightarrow>
     (\<forall>t. tasks db tid = Some t \<longrightarrow>
        int (count_correct db tid) \<le> max_acceptances t
        \<and> (max_acceptances t \<le> int (count_correct db tid) \<longrightarrow> status t = ''closed''))"

section \<open>Example data\<close>

text \<open>
  The task of the scenarios of section 8 (reward 10, at most 5 acceptances, answer
  \<open>B\<close>), with a given creator, status and escrow balance.
\<close>

definition example_task :: "int option \<Rightarrow> string \<Rightarrow> int \<Rightarrow> Task" where
  "example_task creator st escrow =
     \<lparr>creator_id = creator, type = ''user'', question = pg_literal ''A or B?'',
      question_type = pg_literal ''mcq'', choices = None,
      correct_answer = pg_literal '' B '',
      reward_per_completion = 10, max_acceptances = 5, cost = 0, fee = 0,
      escrow_balance = escrow, status = st, starts_at = None, ends_at = None\<rparr>"

definition example_db :: "Task \<Rightarrow> Submission list \<Rightarrow> Database" where
  "example_db t subs =
     \<lparr>tasks = [1 \<mapsto> t], tasks_id_seq = 1, submissions = subs, users = [2 \<mapsto> 0, 3 \<mapsto> 40]\<rparr>"

definition example_submission :: "int \<Rightarrow> bool \<Rightarrow> int \<Rightarrow> Submission" where
  "example_submission uid ok points =
     \<lparr>sub_task_id = 1, sub_user_id = uid, sub_answer = pg_literal ''B'', sub_is_correct = ok,
      sub_awarded_points = points, sub_validated_at = 0\<rparr>"

definition one_acceptance_db :: Database where
  "one_acceptance_db = example_db ((example_task None ''open'' 25)\<lparr>max_acceptances := 1\<rparr>) []"

definition big_reward_task :: Task where
  "big_reward_task =
     (example_task None ''open'' 18014398509481984)\<lparr>reward_per_completion := 9007199254740993\<rparr>"

text \<open>A table without constraints on its rows.\<close>

definition no_constraints :: "Task \<Rightarrow> bool" where
  "no_constraints row = True"

definition example_request :: "int option \<Rightarrow> int option \<Rightarrow> OfficialRequest" where
  "example_request reward maxacc =
     \<lparr>o_method = ''POST'', o_admin_secret = Some ''s3cret'',
      o_question = Some (js ''A or B?''), o_question_type = Some (js ''mcq''),
      o_choices = None, o_correct_answer = Some (js ''B''),
      o_reward_per_completion = reward, o_max_acceptances = maxacc,
      o_starts_at = None, o_ends_at = None\<rparr>"

text \<open>
  The database after \<^verbatim>\<open>official.ts\<close> has accepted the example request with no reward
  and \<^verbatim>\<open>max_acceptances\<close> 0: the new task is task 2.
\<close>

definition zero_acceptances_db :: Database where
  "zero_acceptances_db =
     snd (official_handler (Some ''s3cret'') no_constraints
            (example_db (example_task None ''open'' 25) []) (example_request None (Some 0)))"

section \<open>Lower-casing\<close>

subsection \<open>Strings without a capital sigma\<close>

lemma cps_no_surrogates:
  "(\<And>u. u \<in> set s \<Longrightarrow> u < 0xD800) \<Longrightarrow> StringToCodePoints s = map unat s"
proof (induction s rule: StringToCodePoints.induct)
  case 1
  then show ?case by simp
next
  case (2 u)
  then show ?case by simp
next
  case (3 u v s)
  have "u < 0xD800" using "3.prems" by simp
  then have "\<not> 0xD800 \<le> u" by simp
  then show ?case using 3 by simp
qed

lemma toLowercase_simple:
  "0x03A3 \<notin> set cs \<Longrightarrow> toLowercase b cs = concat (map lowercase_mapping cs)"
  by (induction cs arbitrary: b) auto

lemma cps_units:
  "x \<in> set (StringToCodePoints s) \<Longrightarrow> x < 0x10000 \<Longrightarrow> \<exists>u \<in> set s. unat u = x"
  by (induction s rule: StringToCodePoints.induct) (auto split: if_splits)

lemma unit_not_in_cps:
  assumes "n < 0x10000" and "of_nat n \<notin> set s"
  shows "n \<notin> set (StringToCodePoints s)"
proof
  assume "n \<in> set (StringToCodePoints s)"
  then obtain u where u: "u \<in> set s" "unat u = n" using cps_units assms(1) by blast
  then have "of_nat n = u" by auto
  then show False using assms(2) u(1) by simp
qed

lemma toLowerCase_case_fold:
  assumes "0x03A3 \<notin> set s"
  shows "toLowerCase s = case_fold s"
proof -
  have "(0x03A3::nat) \<notin> set (StringToCodePoints s)"
    using unit_not_in_cps [of "0x03A3" s] assms(1) by simp
  then show ?thesis
    by (simp add: toLowerCase_def case_fold_def toLowercase_simple)
qed

subsection \<open>Strings of ASCII characters\<close>

lemma lowercase_ranges_head:
  "lowercase_ranges = (65, 90, 1, 32) # tl lowercase_ranges"
  by (simp add: lowercase_ranges_def)

lemma lowercase_ranges_tail:
  "list_all (\<lambda>(lo, hi, step, delta). 128 \<le> lo) (tl lowercase_ranges)"
  by (simp add: lowercase_ranges_def)

lemma simple_lowercase_ascii:
  assumes "n < 128"
  shows "simple_lowercase n = (if 65 \<le> n \<and> n \<le> 90 then n + 32 else n)"
proof -
  have "find (\<lambda>(lo, hi, step, delta). lo \<le> n \<and> n \<le> hi \<and> (n - lo) mod step = 0)
          (tl lowercase_ranges) = None"
    using lowercase_ranges_tail assms
    by (auto simp: find_None_iff list_all_iff)
  then show ?thesis
    unfolding simple_lowercase_def
    by (subst lowercase_ranges_head, subst lowercase_ranges_head) (simp add: nat_add_distrib)
qed

lemma encode_small:
  "(\<And>x. x \<in> set cps \<Longrightarrow> x < 0x10000) \<Longrightarrow> CodePointsToString cps = map of_nat cps"
  by (induction cps) (simp_all add: CodePointsToString_def UTF16EncodeCodePoint_def)

lemma unat_ascii: "(u :: 16 word) < 0x80 \<Longrightarrow> unat u < 128"
  by (simp add: word_less_nat_alt)

lemma lower_unit_ascii:
  fixes u :: "16 word"
  assumes "u < 0x80"
  shows "of_nat (simple_lowercase (unat u)) = (if 0x41 \<le> u \<and> u \<le> 0x5A then u + 0x20 else u)"
proof -
  have "unat u < 128" using assms by (rule unat_ascii)
  then show ?thesis
    by (simp add: simple_lowercase_ascii word_le_nat_alt)
qed

lemma toLowerCase_ascii:
  assumes "\<And>u. u \<in> set s \<Longrightarrow> u < 0x80"
  shows "toLowerCase s = map (\<lambda>u. if 0x41 \<le> u \<and> u \<le> 0x5A then u + 0x20 else u) s"
proof -
  have un: "unat u < 128" if "u \<in> set s" for u
    using assms [OF that] by (rule unat_ascii)
  have ns: "u < 0xD800" if "u \<in> set s" for u
    using un [OF that] by (simp add: word_less_nat_alt)
  have cps: "StringToCodePoints s = map unat s"
    using ns by (rule cps_no_surrogates)
  have s1: "(0x03A3::nat) \<notin> set (map unat s)"
  proof
    assume "(0x03A3::nat) \<in> set (map unat s)"
    then obtain u where "u \<in> set s" "unat u = 0x03A3" by auto
    then show False using un [of u] by simp
  qed
  have m: "map lowercase_mapping (map unat s) = map (\<lambda>c. [simple_lowercase c]) (map unat s)"
  proof (rule map_cong [OF refl])
    fix c assume "c \<in> set (map unat s)"
    then obtain u where "u \<in> set s" "c = unat u" by auto
    then have "c < 128" using un by simp
    then show "lowercase_mapping c = [simple_lowercase c]"
      by (simp add: lowercase_mapping_def)
  qed
  have small: "x < 0x10000" if "x \<in> set (map simple_lowercase (map unat s))" for x
  proof -
    from that obtain u where u: "u \<in> set s" and x: "x = simple_lowercase (unat u)" by auto
    show ?thesis using un [OF u] by (simp add: x simple_lowercase_ascii)
  qed
  have c: "concat (map (\<lambda>c. [simple_lowercase c]) (map unat s))
             = map simple_lowercase (map unat s)"
    by (induction s) simp_all
  have "toLowerCase s = CodePointsToString (map simple_lowercase (map unat s))"
    by (simp only: toLowerCase_def cps toLowercase_simple [OF s1] m c)
  also have "\<dots> = map of_nat (map simple_lowercase (map unat s))"
    using small by (rule encode_small)
  also have "\<dots> = map (\<lambda>u. if 0x41 \<le> u \<and> u \<le> 0x5A then u + 0x20 else u) s"
    using assms by (simp add: lower_unit_ascii)
  finally show ?thesis .
qed

lemma ascii_case_pairs_eval:
  "ascii_case_pairs = map (\<lambda>n. (of_nat n, of_nat (n + 32))) [65..<91]"
  by (simp add: ascii_case_pairs_def js_def upt_rec_numeral)

lemma ascii_pairs_iff:
  "(x, y) \<in> set ascii_case_pairs \<longleftrightarrow> 0x41 \<le> x \<and> x \<le> 0x5A \<and> y = x + 0x20"
proof
  assume "(x, y) \<in> set ascii_case_pairs"
  then have "(x, y) \<in> (\<lambda>n. (of_nat n, of_nat (n + 32))) ` {65..<91}"
    by (simp only: ascii_case_pairs_eval set_map set_upt)
  then obtain n where n: "65 \<le> n" "n < 91" and x: "x = of_nat n" and y: "y = of_nat (n + 32)"
    by (elim imageE) (simp only: prod.inject atLeastLessThan_iff, blast)
  have "unat x = n" using n by (simp add: x unat_of_nat)
  then show "0x41 \<le> x \<and> x \<le> 0x5A \<and> y = x + 0x20"
    using n by (simp add: word_le_nat_alt) (simp add: x y)
next
  assume a: "0x41 \<le> x \<and> x \<le> 0x5A \<and> y = x + 0x20"
  then have r: "unat x \<in> {65..<91}"
    by (simp add: word_le_nat_alt)
  have e: "(x, y) = (of_nat (unat x), of_nat (unat x + 32))"
    using a by simp
  have "(x, y) \<in> (\<lambda>n. (of_nat n, of_nat (n + 32))) ` {65..<91}"
    using r by (subst e) (rule imageI)
  then show "(x, y) \<in> set ascii_case_pairs"
    by (simp only: ascii_case_pairs_eval set_map set_upt)
qed

lemma lower_unit_eq_iff:
  fixes x y :: "16 word"
  assumes "x < 0x80" and "y < 0x80"
  shows "(if 0x41 \<le> x \<and> x \<le> 0x5A then x + 0x20 else x)
           = (if 0x41 \<le> y \<and> y \<le> 0x5A then y + 0x20 else y)
         \<longleftrightarrow> same_letter x y"
  unfolding same_letter_def ascii_pairs_iff
  using assms by unat_arith

lemma map_eq_list_all2:
  assumes "\<And>x. x \<in> set xs \<Longrightarrow> P x" and "\<And>y. y \<in> set ys \<Longrightarrow> P y"
    and "\<And>x y. P x \<Longrightarrow> P y \<Longrightarrow> (f x = f y) = R x y"
  shows "(map f xs = map f ys) = list_all2 R xs ys"
  using assms(1,2)
proof (induction xs arbitrary: ys)
  case Nil
  then show ?case by simp
next
  case (Cons x xs)
  show ?case
  proof (cases ys)
    case Nil
    then show ?thesis by simp
  next
    case (Cons y ys')
    have "(f x = f y) = R x y"
      using Cons.prems(1) [of x] Cons.prems(2) [of y] Cons assms(3) by simp
    moreover have "(map f xs = map f ys') = list_all2 R xs ys'"
      using Cons.prems Cons by (intro Cons.IH) simp_all
    ultimately show ?thesis using Cons by simp
  qed
qed

lemma toLowerCase_ascii_eq_iff:
  assumes "\<And>u. u \<in> set s \<Longrightarrow> u < 0x80" and "\<And>u. u \<in> set t \<Longrightarrow> u < 0x80"
  shows "toLowerCase s = toLowerCase t \<longleftrightarrow> equal_up_to_case s t"
proof -
  have a: "toLowerCase s = map (\<lambda>u. if 0x41 \<le> u \<and> u \<le> 0x5A then u + 0x20 else u) s"
    using assms(1) by (rule toLowerCase_ascii)
  have b: "toLowerCase t = map (\<lambda>u. if 0x41 \<le> u \<and> u \<le> 0x5A then u + 0x20 else u) t"
    using assms(2) by (rule toLowerCase_ascii)
  show ?thesis
    unfolding a b equal_up_to_case_def
    by (rule map_eq_list_all2 [where P = "\<lambda>u. u < 0x80"])
       (simp_all add: assms lower_unit_eq_iff)
qed

subsection \<open>U+0000 under lower-casing\<close>

lemma not_isWhiteSpace_0: "\<not> isWhiteSpace 0"
  by (simp add: isWhiteSpace_def)

lemma cps_zero: "0 \<in> set (StringToCodePoints s) \<longleftrightarrow> 0 \<in> set s"
  by (induction s rule: StringToCodePoints.induct) (auto simp: unat_eq_0 split: if_splits)

lemma cps_bound: "x \<in> set (StringToCodePoints s) \<Longrightarrow> x < 0x110000"
proof (induction s rule: StringToCodePoints.induct)
  case 1
  then show ?case by simp
next
  case (2 u)
  have "unat u < 2 ^ 16" using unsigned_less [of u] by simp
  then show ?case using 2 by simp
next
  case (3 u v s)
  have u: "unat u < 2 ^ 16" using unsigned_less [of u] by simp
  show ?case
  proof (cases "0xD800 \<le> u \<and> u \<le> 0xDBFF \<and> 0xDC00 \<le> v \<and> v \<le> 0xDFFF")
    case True
    then have "unat u \<le> 0xDBFF" "unat v \<le> 0xDFFF"
      by (simp_all add: word_le_nat_alt)
    then have "0x10000 + (unat u - 0xD800) * 0x400 + (unat v - 0xDC00) < (0x110000::nat)"
      by simp
    then show ?thesis using 3 True by auto
  next
    case False
    then show ?thesis using 3 u by auto
  qed
qed

lemma lowercase_ranges_targets:
  "list_all (\<lambda>(lo, hi, step, delta). 0 < lo \<and> 0 < int lo + delta \<and> int hi + delta < 0x110000)
     lowercase_ranges"
  by (simp add: lowercase_ranges_def)

lemma simple_lowercase_cases:
  obtains (same) "simple_lowercase c = c"
  | (mapped) lo hi step delta where "(lo, hi, step, delta) \<in> set lowercase_ranges"
      and "lo \<le> c" and "c \<le> hi" and "simple_lowercase c = nat (int c + delta)"
proof (cases "find (\<lambda>(lo, hi, step, delta). lo \<le> c \<and> c \<le> hi \<and> (c - lo) mod step = 0)
                lowercase_ranges")
  case None
  then show ?thesis using same by (simp add: simple_lowercase_def)
next
  case (Some r)
  obtain lo hi step delta where r: "r = (lo, hi, step, delta)" by (cases r) auto
  from Some have "r \<in> set lowercase_ranges"
    and "(\<lambda>(lo, hi, step, delta). lo \<le> c \<and> c \<le> hi \<and> (c - lo) mod step = 0) r"
    by (auto simp: find_Some_iff in_set_conv_nth)
  then show ?thesis
    using mapped [of lo hi step delta] Some by (simp add: r simple_lowercase_def)
qed

lemma simple_lowercase_zero: "simple_lowercase c = 0 \<longleftrightarrow> c = 0"
proof (cases c rule: simple_lowercase_cases)
  case same
  then show ?thesis by simp
next
  case (mapped lo hi step delta)
  then have "0 < lo \<and> 0 < int lo + delta"
    using lowercase_ranges_targets by (auto simp: list_all_iff)
  then show ?thesis using mapped by auto
qed

lemma simple_lowercase_bound: "c < 0x110000 \<Longrightarrow> simple_lowercase c < 0x110000"
proof (cases c rule: simple_lowercase_cases)
  case same
  then show "c < 0x110000 \<Longrightarrow> ?thesis" by simp
next
  case (mapped lo hi step delta)
  then have "int hi + delta < 0x110000"
    using lowercase_ranges_targets by (auto simp: list_all_iff)
  then show "c < 0x110000 \<Longrightarrow> ?thesis" using mapped by auto
qed

lemma toLowercase_zero: "0 \<in> set (toLowercase b cs) \<longleftrightarrow> 0 \<in> set cs"
  by (induction cs arbitrary: b) (auto simp: simple_lowercase_zero lowercase_mapping_def)

lemma toLowercase_bound:
  "(\<And>x. x \<in> set cs \<Longrightarrow> x < 0x110000) \<Longrightarrow> y \<in> set (toLowercase b cs) \<Longrightarrow> y < 0x110000"
  by (induction cs arbitrary: b)
     (auto simp: simple_lowercase_bound lowercase_mapping_def split: if_splits)

lemma of_nat_nonzero: "0 < n \<Longrightarrow> n < 65536 \<Longrightarrow> (of_nat n :: 16 word) \<noteq> 0"
  by (simp add: word_of_nat_eq_0_iff dvd_eq_mod_eq_0)

lemma encode_zero:
  assumes "cp < 0x110000"
  shows "0 \<in> set (UTF16EncodeCodePoint cp) \<longleftrightarrow> cp = 0"
proof (cases "cp < 0x10000")
  case True
  then have "(of_nat cp :: 16 word) = 0 \<longleftrightarrow> cp = 0"
    by (simp add: word_of_nat_eq_0_iff dvd_eq_mod_eq_0)
  then show ?thesis using True by (auto simp: UTF16EncodeCodePoint_def)
next
  case False
  define q where "q = (cp - 0x10000) div 0x400"
  define r where "r = (cp - 0x10000) mod 0x400"
  have q: "q < 0x400" using assms False by (simp add: q_def)
  have r: "r < 0x400" by (simp add: r_def)
  have a: "(of_nat (0xD800 + q) :: 16 word) \<noteq> 0"
    by (rule of_nat_nonzero) (use q in simp_all)
  have b: "(of_nat (0xDC00 + r) :: 16 word) \<noteq> 0"
    by (rule of_nat_nonzero) (use r in simp_all)
  show ?thesis
    using False a b by (auto simp: UTF16EncodeCodePoint_def q_def r_def)
qed

lemma CodePointsToString_zero:
  "(\<And>x. x \<in> set cps \<Longrightarrow> x < 0x110000) \<Longrightarrow>
     0 \<in> set (CodePointsToString cps) \<longleftrightarrow> 0 \<in> set cps"
  by (induction cps) (auto simp: CodePointsToString_def encode_zero)

lemma toLowerCase_zero: "0 \<in> set (toLowerCase s) \<longleftrightarrow> 0 \<in> set s"
proof -
  have "\<And>y. y \<in> set (toLowercase [] (StringToCodePoints s)) \<Longrightarrow> y < 0x110000"
    using cps_bound toLowercase_bound by blast
  then show ?thesis
    by (simp add: toLowerCase_def CodePointsToString_zero toLowercase_zero cps_zero)
qed

section \<open>Trimming\<close>

lemma trimmed_of_trim: "trimmed_of s (trim s)"
proof -
  define pre where "pre = takeWhile isWhiteSpace s"
  define u where "u = dropWhile isWhiteSpace s"
  define post where "post = rev (takeWhile isWhiteSpace (rev u))"
  have t: "trim s = rev (dropWhile isWhiteSpace (rev u))"
    by (simp add: trim_def u_def)
  have "u = rev (takeWhile isWhiteSpace (rev u) @ dropWhile isWhiteSpace (rev u))"
    by (simp only: takeWhile_dropWhile_id rev_rev_ident)
  also have "\<dots> = rev (dropWhile isWhiteSpace (rev u)) @ rev (takeWhile isWhiteSpace (rev u))"
    by (rule rev_append)
  finally have u: "u = trim s @ post"
    by (simp only: t post_def)
  have su: "s = pre @ u"
    unfolding pre_def u_def by simp
  have s: "s = pre @ trim s @ post"
    by (rule trans [OF su arg_cong [OF u, of "\<lambda>x. pre @ x"]])
  have wpre: "\<forall>c \<in> set pre. isWhiteSpace c"
    by (auto simp: pre_def dest: set_takeWhileD)
  have wpost: "\<forall>c \<in> set post. isWhiteSpace c"
    by (auto simp: post_def dest: set_takeWhileD)
  have ends: "\<not> isWhiteSpace (hd (trim s)) \<and> \<not> isWhiteSpace (last (trim s))" if ne: "trim s \<noteq> []"
  proof
    have "u \<noteq> []" using u ne by auto
    then have "\<not> isWhiteSpace (hd u)"
      unfolding u_def by (rule hd_dropWhile)
    moreover have "hd u = hd (trim s)" using u ne by (metis hd_append2)
    ultimately show "\<not> isWhiteSpace (hd (trim s))" by simp
    have d: "dropWhile isWhiteSpace (rev u) \<noteq> []" using ne t by simp
    have "last (trim s) = hd (dropWhile isWhiteSpace (rev u))"
      using d by (simp add: t last_rev)
    then show "\<not> isWhiteSpace (last (trim s))"
      using hd_dropWhile[OF d] by simp
  qed
  show ?thesis
    unfolding trimmed_of_def using s wpre wpost ends by blast
qed

lemma trimmed_of_unique:
  assumes "trimmed_of s t"
  shows "t = trim s"
proof -
  from assms obtain pre post where s: "s = pre @ t @ post"
    and wpre: "\<forall>c \<in> set pre. isWhiteSpace c"
    and wpost: "\<forall>c \<in> set post. isWhiteSpace c"
    and ends: "t \<noteq> [] \<longrightarrow> \<not> isWhiteSpace (hd t) \<and> \<not> isWhiteSpace (last t)"
    unfolding trimmed_of_def by blast
  show ?thesis
  proof (cases "t = []")
    case True
    then have "\<forall>c \<in> set s. isWhiteSpace c" using s wpre wpost by auto
    then show ?thesis using True by (auto simp: trim_def dest: set_dropWhileD)
  next
    case False
    then obtain a t' where t: "t = a # t'" by (cases t) auto
    have a: "\<not> isWhiteSpace a" using ends t by simp
    have "dropWhile isWhiteSpace s = dropWhile isWhiteSpace (t @ post)"
      unfolding s using wpre by (simp add: dropWhile_append2)
    also have "\<dots> = t @ post" using a t by simp
    finally have d1: "dropWhile isWhiteSpace s = t @ post" .
    have wrev: "\<forall>c \<in> set (rev post). isWhiteSpace c" using wpost by simp
    have "rev t \<noteq> []" using False by simp
    then obtain b r where rt: "rev t = b # r" by (cases "rev t") auto
    have "b = last t" using rt False by (metis hd_rev list.sel(1))
    then have b: "\<not> isWhiteSpace b" using ends False by simp
    have "dropWhile isWhiteSpace (rev post @ rev t) = dropWhile isWhiteSpace (rev t)"
      using wrev by (intro dropWhile_append2) auto
    also have "\<dots> = rev t" using b rt by simp
    finally show ?thesis by (simp add: trim_def d1)
  qed
qed

lemma set_trim: "set (trim s) \<subseteq> set s"
  unfolding trim_def by (auto dest!: set_dropWhileD)

lemma trim_zero: "0 \<in> set (trim s) \<longleftrightarrow> 0 \<in> set s"
proof
  show "0 \<in> set (trim s) \<Longrightarrow> 0 \<in> set s" using set_trim by blast
  assume z: "0 \<in> set s"
  obtain pre post where s: "s = pre @ trim s @ post"
    and w: "\<forall>c \<in> set pre. isWhiteSpace c" "\<forall>c \<in> set post. isWhiteSpace c"
    using trimmed_of_trim [of s] unfolding trimmed_of_def by blast
  have "0 \<in> set pre \<union> set (trim s) \<union> set post"
    using z by (subst (asm) s) auto
  then show "0 \<in> set (trim s)" using w not_isWhiteSpace_0 by blast
qed

lemma validate_answer_zero:
  assumes "validate_answer qtype a c" and "pg_refuses a"
  shows "pg_refuses c"
proof -
  have "0 \<in> set (trim a)" using assms(2) by (simp add: pg_refuses_def trim_zero)
  then have "0 \<in> set (trim c)"
    using assms(1) toLowerCase_zero [of "trim a"] toLowerCase_zero [of "trim c"]
    by (auto simp: validate_answer_def split: if_splits)
  then show ?thesis by (simp add: pg_refuses_def trim_zero)
qed

lemma short_not_mcq: "js ''short'' \<noteq> js ''mcq''"
  by (simp add: js_def)

lemma validate_short:
  "validate_answer (js ''short'') a c \<longleftrightarrow> toLowerCase (trim a) = toLowerCase (trim c)"
  by (simp add: validate_answer_def short_not_mcq)

section \<open>The validator\<close>

text \<open>
  Claim C7, as amended. For the question type \<open>mcq\<close> the validator accepts exactly when
  the two strings are equal after the surrounding white space is trimmed from both,
  letter case kept. For \<open>short\<close> it accepts exactly when the two trimmed strings are
  equal after \<^verbatim>\<open>toLowerCase\<close>. That is the lower-casing of every character by itself,
  except that a capital sigma becomes the final sigma after a cased letter at the end
  of a word: for strings without a capital sigma the validator accepts exactly when
  the trimmed strings are equal after each character is mapped to its lower case, and
  for strings of ASCII characters exactly when they are equal up to the case of the
  letters A to Z. Nothing else is normalised. The validator is a function of its
  three arguments, so it is deterministic and returns on any two strings.
\<close>

theorem validate_answer_spec:
  "(validate_answer (js ''mcq'') a c \<longleftrightarrow> spec_mcq_match a c)
   \<and> (validate_answer (js ''short'') a c \<longleftrightarrow>
        (\<exists>ta tc. trimmed_of a ta \<and> trimmed_of c tc \<and> toLowerCase ta = toLowerCase tc))
   \<and> (0x03A3 \<notin> set a \<and> 0x03A3 \<notin> set c \<longrightarrow>
        (validate_answer (js ''short'') a c \<longleftrightarrow> spec_short_match a c))
   \<and> ((\<forall>u \<in> set a \<union> set c. u < 0x80) \<longrightarrow>
        (validate_answer (js ''short'') a c \<longleftrightarrow>
           (\<exists>ta tc. trimmed_of a ta \<and> trimmed_of c tc \<and> equal_up_to_case ta tc)))"
proof (intro conjI impI)
  show "validate_answer (js ''mcq'') a c \<longleftrightarrow> spec_mcq_match a c"
    unfolding validate_answer_def spec_mcq_match_def
    using trimmed_of_trim trimmed_of_unique by (metis (full_types))
  show "validate_answer (js ''short'') a c \<longleftrightarrow>
        (\<exists>ta tc. trimmed_of a ta \<and> trimmed_of c tc \<and> toLowerCase ta = toLowerCase tc)"
    unfolding validate_short
    using trimmed_of_trim trimmed_of_unique by metis
next
  assume "0x03A3 \<notin> set a \<and> 0x03A3 \<notin> set c"
  then have "0x03A3 \<notin> set (trim a)" "0x03A3 \<notin> set (trim c)"
    using set_trim by blast+
  then have "toLowerCase (trim a) = case_fold (trim a)" "toLowerCase (trim c) = case_fold (trim c)"
    by (simp_all add: toLowerCase_case_fold)
  then show "validate_answer (js ''short'') a c \<longleftrightarrow> spec_short_match a c"
    unfolding validate_short spec_short_match_def
    using trimmed_of_trim trimmed_of_unique by metis
next
  assume "\<forall>u \<in> set a \<union> set c. u < 0x80"
  then have "\<And>u. u \<in> set (trim a) \<Longrightarrow> u < 0x80" "\<And>u. u \<in> set (trim c) \<Longrightarrow> u < 0x80"
    using set_trim by blast+
  then have "toLowerCase (trim a) = toLowerCase (trim c) \<longleftrightarrow> equal_up_to_case (trim a) (trim c)"
    by (rule toLowerCase_ascii_eq_iff)
  then show "validate_answer (js ''short'') a c \<longleftrightarrow>
           (\<exists>ta tc. trimmed_of a ta \<and> trimmed_of c tc \<and> equal_up_to_case ta tc)"
    unfolding validate_short
    using trimmed_of_trim trimmed_of_unique by metis
qed

lemmas unicode_eval = toLowerCase_def CodePointsToString_def UTF16EncodeCodePoint_def
  lowercase_mapping_def simple_lowercase_def Final_Sigma_def Cased_def Case_Ignorable_def
  in_ranges_def lowercase_ranges_def cased_ranges_def case_ignorable_ranges_def

lemma trimmed_of_self:
  "(s \<noteq> [] \<longrightarrow> \<not> isWhiteSpace (hd s) \<and> \<not> isWhiteSpace (last s)) \<Longrightarrow> trimmed_of s s"
  unfolding trimmed_of_def by (intro exI [of _ "[]"]) simp

text \<open>
  Claim C7 as the specification states it has \<open>short\<close> accept two answers that are equal
  after trimming and case folding. The strings \<open>A\<Sigma>\<close> (U+0041 U+03A3) and
  \<open>a\<sigma>\<close> (U+0061 U+03C3) are equal once every character is mapped to its lower
  case; \<^verbatim>\<open>toLowerCase\<close> makes the sigma at the end of the first one a final sigma
  (U+03C2), and the validator rejects the pair.
\<close>

theorem short_final_sigma_counterexample:
  "toLowerCase [0x0041, 0x03A3] = [0x0061, 0x03C2]
   \<and> toLowerCase [0x0061, 0x03C3] = [0x0061, 0x03C3]
   \<and> case_fold [0x0041, 0x03A3] = [0x0061, 0x03C3]
   \<and> case_fold [0x0061, 0x03C3] = [0x0061, 0x03C3]
   \<and> spec_short_match [0x0041, 0x03A3] [0x0061, 0x03C3]
   \<and> \<not> validate_answer (js ''short'') [0x0041, 0x03A3] [0x0061, 0x03C3]"
proof -
  have l1: "toLowerCase [0x0041, 0x03A3] = [0x0061, 0x03C2]"
    by (simp add: unicode_eval)
  have l2: "toLowerCase [0x0061, 0x03C3] = [0x0061, 0x03C3]"
    by (simp add: unicode_eval)
  have f1: "case_fold [0x0041, 0x03A3] = [0x0061, 0x03C3]"
    by (simp add: case_fold_def unicode_eval)
  have f2: "case_fold [0x0061, 0x03C3] = [0x0061, 0x03C3]"
    by (simp add: case_fold_def unicode_eval)
  have t1: "trimmed_of [0x0041, 0x03A3] [0x0041, 0x03A3]"
    by (rule trimmed_of_self) (simp add: isWhiteSpace_def)
  have t2: "trimmed_of [0x0061, 0x03C3] [0x0061, 0x03C3]"
    by (rule trimmed_of_self) (simp add: isWhiteSpace_def)
  have s: "spec_short_match [0x0041, 0x03A3] [0x0061, 0x03C3]"
    unfolding spec_short_match_def using t1 t2 f1 f2 by metis
  have tr: "trim [0x0041, 0x03A3] = [0x0041, 0x03A3]" "trim [0x0061, 0x03C3] = [0x0061, 0x03C3]"
    by (simp_all add: trim_def isWhiteSpace_def)
  have v: "\<not> validate_answer (js ''short'') [0x0041, 0x03A3] [0x0061, 0x03C3]"
    by (simp add: validate_short tr l1 l2)
  show ?thesis using l1 l2 f1 f2 s v by simp
qed

text \<open>
  The two scenarios of section 8 (\<open>B\<close> against \<open>B\<close> between blanks, \<open>paris\<close> with a
  trailing blank against \<open>Paris\<close>), and \<open>b\<close> against \<open>B\<close>, which \<open>mcq\<close> rejects.
\<close>

theorem validate_answer_spec_witness:
  "validate_answer (js ''mcq'') (js ''B'') (js '' B '')
   \<and> spec_mcq_match (js ''B'') (js '' B '')
   \<and> \<not> validate_answer (js ''mcq'') (js ''b'') (js ''B'')
   \<and> \<not> spec_mcq_match (js ''b'') (js ''B'')
   \<and> 0x03A3 \<notin> set (js ''paris '') \<and> 0x03A3 \<notin> set (js ''Paris'')
   \<and> list_all (\<lambda>u. u < 0x80) (js ''paris '' @ js ''Paris'')
   \<and> validate_answer (js ''short'') (js ''paris '') (js ''Paris'')
   \<and> spec_short_match (js ''paris '') (js ''Paris'')
   \<and> (\<exists>ta tc. trimmed_of (js ''paris '') ta \<and> trimmed_of (js ''Paris'') tc
          \<and> equal_up_to_case ta tc)"
proof -
  have 1: "validate_answer (js ''mcq'') (js ''B'') (js '' B '')"
    by (simp add: validate_answer_def trim_def js_def isWhiteSpace_def)
  have 2: "\<not> validate_answer (js ''mcq'') (js ''b'') (js ''B'')"
    by (simp add: validate_answer_def trim_def js_def isWhiteSpace_def)
  have 3: "0x03A3 \<notin> set (js ''paris '') \<and> 0x03A3 \<notin> set (js ''Paris'')"
    by (simp add: js_def)
  have 4: "\<forall>u \<in> set (js ''paris '') \<union> set (js ''Paris''). u < 0x80"
    by (simp add: js_def)
  have 6: "list_all (\<lambda>u. u < 0x80) (js ''paris '' @ js ''Paris'')"
    by (simp add: js_def)
  have a: "\<And>u. u \<in> set (trim (js ''paris '')) \<Longrightarrow> u < 0x80"
    by (simp add: js_def trim_def isWhiteSpace_def) auto
  have b: "\<And>u. u \<in> set (trim (js ''Paris'')) \<Longrightarrow> u < 0x80"
    by (simp add: js_def trim_def isWhiteSpace_def) auto
  have pa: "toLowerCase (trim (js ''paris ''))
              = map (\<lambda>u. if 0x41 \<le> u \<and> u \<le> 0x5A then u + 0x20 else u) (trim (js ''paris ''))"
    using a by (rule toLowerCase_ascii)
  have pb: "toLowerCase (trim (js ''Paris''))
              = map (\<lambda>u. if 0x41 \<le> u \<and> u \<le> 0x5A then u + 0x20 else u) (trim (js ''Paris''))"
    using b by (rule toLowerCase_ascii)
  have 5: "validate_answer (js ''short'') (js ''paris '') (js ''Paris'')"
    unfolding validate_short pa pb
    by (simp add: js_def trim_def isWhiteSpace_def)
  show ?thesis
    using 1 2 3 4 5 6
      validate_answer_spec [of "js ''B''" "js '' B ''"]
      validate_answer_spec [of "js ''b''" "js ''B''"]
      validate_answer_spec [of "js ''paris ''" "js ''Paris''"]
    by blast
qed

section \<open>Text values\<close>

lemma pg_text_eq_None: "pg_text s = None \<longleftrightarrow> pg_refuses s"
  using pg_text.rep_eq [of s] by (auto split: if_splits)

lemma pg_text_eq_Some: "pg_text s = Some a \<longleftrightarrow> \<not> pg_refuses s \<and> text_of a = utf8_text s"
proof
  assume "pg_text s = Some a"
  then show "\<not> pg_refuses s \<and> text_of a = utf8_text s"
    using pg_text.rep_eq [of s] by (auto split: if_splits)
next
  assume h: "\<not> pg_refuses s \<and> text_of a = utf8_text s"
  then have "map_option text_of (pg_text s) = Some (text_of a)"
    by (simp add: pg_text.rep_eq)
  then obtain z where z: "pg_text s = Some z" and "text_of z = text_of a"
    by auto
  then have "z = a" by (simp add: text_of_inject)
  with z show "pg_text s = Some a" by simp
qed

lemma text_of_accepted: "\<not> pg_refuses (text_of a)"
  using text_of [of a] by simp

lemma validated_answer_accepted:
  assumes "validate_answer qtype a (text_of c)"
  shows "\<exists>x. pg_text a = Some x"
proof -
  have "\<not> pg_refuses a"
    using validate_answer_zero [OF assms] text_of_accepted [of c] by blast
  then have "pg_text a \<noteq> None" by (simp add: pg_text_eq_None)
  then show ?thesis by blast
qed

lemma text_of_pg_literal:
  "text_of (pg_literal ''B'') = js ''B''"
  "text_of (pg_literal '' B '') = js '' B ''"
  "text_of (pg_literal ''mcq'') = js ''mcq''"
  "text_of (pg_literal ''A or B?'') = js ''A or B?''"
  by (simp_all add: pg_literal.rep_eq js_def)

lemma pg_text_literal:
  "pg_text (js ''B'') = Some (pg_literal ''B'')"
  "pg_text (js '' B'') = Some (pg_literal '' B'')"
  "pg_text (js ''A'') = Some (pg_literal ''A'')"
  "pg_text (js ''mcq'') = Some (pg_literal ''mcq'')"
  "pg_text (js ''A or B?'') = Some (pg_literal ''A or B?'')"
  by (simp_all add: pg_text_eq_Some pg_literal.rep_eq pg_refuses_def js_def)

lemma deduct_escrow_simps [simp]:
  "tasks (deduct_escrow db r tid) =
     (case tasks db tid of None \<Rightarrow> tasks db
      | Some t \<Rightarrow> (tasks db)(tid \<mapsto> t\<lparr>escrow_balance := escrow_balance t - r\<rparr>))"
  "submissions (deduct_escrow db r tid) = submissions db"
  "users (deduct_escrow db r tid) = users db"
  "tasks_id_seq (deduct_escrow db r tid) = tasks_id_seq db"
  by (simp_all add: deduct_escrow_def split: option.splits)

lemma close_task_simps [simp]:
  "tasks (close_task db tid) =
     (case tasks db tid of None \<Rightarrow> tasks db
      | Some t \<Rightarrow> (tasks db)(tid \<mapsto> t\<lparr>status := ''closed''\<rparr>))"
  "submissions (close_task db tid) = submissions db"
  "users (close_task db tid) = users db"
  "tasks_id_seq (close_task db tid) = tasks_id_seq db"
  by (simp_all add: close_task_def split: option.splits)

lemma add_points_simps [simp]:
  "tasks (add_points db r uid) = tasks db"
  "submissions (add_points db r uid) = submissions db"
  "users (add_points db r uid) =
     (case users db uid of None \<Rightarrow> users db | Some p \<Rightarrow> (users db)(uid \<mapsto> p + r))"
  "tasks_id_seq (add_points db r uid) = tasks_id_seq db"
  by (simp_all add: add_points_def split: option.splits)

lemma count_correct_simps [simp]:
  "count_correct (close_task db tid) tid' = count_correct db tid'"
  "count_correct (add_points db r uid) tid' = count_correct db tid'"
  "count_correct (deduct_escrow db r tid) tid' = count_correct db tid'"
  "count_correct (tx\<lparr>submissions := submissions db @ [row]\<rparr>) tid' =
     count_correct db tid' + (if sub_task_id row = tid' \<and> sub_is_correct row then 1 else 0)"
  by (simp_all add: count_correct_def)

lemma Number_of_BigInt_exact:
  assumes "\<bar>n\<bar> \<le> 2 ^ 53"
  shows "Number_of_BigInt n = n"
proof (cases "\<bar>n\<bar> < 2 ^ 53")
  case True
  then have "nat \<bar>n\<bar> < 2 ^ 53" by (simp add: nat_less_iff)
  then show ?thesis by (simp add: Number_of_BigInt_def)
next
  case False
  with assms have "\<bar>n\<bar> = 9007199254740992" by simp
  then consider "n = 9007199254740992" | "n = - 9007199254740992" by linarith
  then show ?thesis
  proof cases
    case 1
    have "Number_of_BigInt 9007199254740992 = 9007199254740992"
      by (simp add: Number_of_BigInt_def bit_length.simps Let_def)
    then show ?thesis using 1 by simp
  next
    case 2
    have "Number_of_BigInt (- 9007199254740992) = - 9007199254740992"
      by (simp add: Number_of_BigInt_def bit_length.simps Let_def)
    then show ?thesis using 2 by simp
  qed
qed

lemma select_submissions_nonempty:
  "0 < length (select_submissions db tid uid) \<longleftrightarrow> has_submission db tid uid"
  unfolding select_submissions_def has_submission_def
  by (auto simp: filter_empty_conv)

lemma precondition_failure_NoneD:
  assumes "precondition_failure now db tid uid = None" and "tasks db tid = Some t"
  shows "status t = ''open''"
    and "\<not> (case starts_at t of None \<Rightarrow> False | Some s \<Rightarrow> now < s)"
    and "\<not> (case ends_at t of None \<Rightarrow> False | Some e \<Rightarrow> e < now)"
    and "creator_id t \<noteq> Some uid"
    and "\<not> has_submission db tid uid"
  using assms unfolding precondition_failure_def
  by (auto split: if_splits option.splits)

lemma submit_passes:
  assumes "precondition_failure now db tid uid = None" and "tasks db tid = Some t"
  shows "submit now dbNow db tid uid a =
     (if validate_answer (text_of (question_type t)) a (text_of (correct_answer t)) then
        (if escrow_balance t < reward_per_completion t then (error_response InsufficientEscrow, db)
         else case pg_text a of
           None \<Rightarrow> (json_error 500 ''internal error'', db)
         | Some x \<Rightarrow>
            (json_settled True (Number_of_BigInt (reward_per_completion t)),
             (let tx3 = add_points
                          ((deduct_escrow db (reward_per_completion t) tid)
                             \<lparr>submissions := submissions db @
                                [\<lparr>sub_task_id = tid, sub_user_id = uid,
                                  sub_answer = x, sub_is_correct = True,
                                  sub_awarded_points = reward_per_completion t,
                                  sub_validated_at = dbNow\<rparr>]\<rparr>)
                          (reward_per_completion t) uid
              in if max_acceptances t \<le> int (count_correct tx3 tid)
                 then close_task tx3 tid else tx3)))
      else case pg_text a of
        None \<Rightarrow> (json_error 500 ''internal error'', db)
      | Some x \<Rightarrow>
         (json_settled False 0,
          db\<lparr>submissions := submissions db @
               [\<lparr>sub_task_id = tid, sub_user_id = uid, sub_answer = x,
                 sub_is_correct = False, sub_awarded_points = 0,
                 sub_validated_at = dbNow\<rparr>]\<rparr>))"
proof -
  note f = precondition_failure_NoneD [OF assms]
  have c: "\<not> (case creator_id t of None \<Rightarrow> False | Some c \<Rightarrow> c \<noteq> 0 \<and> c = uid)"
    using f(4) by (auto split: option.splits)
  have s: "\<not> 0 < length (select_submissions db tid uid)"
    using f(5) by (simp only: select_submissions_nonempty not_False_eq_True)
  show ?thesis
    unfolding submit_def BEGIN_def ROLLBACK_def COMMIT_def select_task_def Let_def
      insert_submission_def
    using s by (simp add: assms(2) f(1) f(2) f(3) c count_correct_def split: option.splits)
qed

lemma submit_rejects:
  assumes "uid \<noteq> 0" and "precondition_failure now db tid uid = Some e"
  shows "submit now dbNow db tid uid a = (error_response e, db)"
proof (cases "tasks db tid")
  case None
  then show ?thesis
    using assms(2)
    by (simp add: precondition_failure_def submit_def BEGIN_def ROLLBACK_def select_task_def)
next
  case (Some t)
  define A where "A \<longleftrightarrow> status t \<noteq> ''open''"
  define B where "B \<longleftrightarrow> (case starts_at t of None \<Rightarrow> False | Some s \<Rightarrow> \<not> s \<le> now)"
  define C where "C \<longleftrightarrow> (case ends_at t of None \<Rightarrow> False | Some e \<Rightarrow> \<not> now \<le> e)"
  define D where "D \<longleftrightarrow> creator_id t = Some uid"
  define E where "E \<longleftrightarrow> has_submission db tid uid"
  have c: "(case creator_id t of None \<Rightarrow> False | Some c \<Rightarrow> c \<noteq> 0 \<and> c = uid) \<longleftrightarrow> D"
    unfolding D_def using assms(1) by (auto split: option.splits)
  have st: "(case starts_at t of None \<Rightarrow> False | Some s \<Rightarrow> now < s) \<longleftrightarrow> B"
    unfolding B_def by (auto split: option.splits)
  have en: "(case ends_at t of None \<Rightarrow> False | Some e \<Rightarrow> e < now) \<longleftrightarrow> C"
    unfolding C_def by (auto split: option.splits)
  have su: "select_submissions db tid uid = [] \<longleftrightarrow> \<not> E"
    unfolding E_def using select_submissions_nonempty [of db tid uid] by auto
  have pf: "precondition_failure now db tid uid =
      (if A then Some TaskClosed else if B then Some NotStarted else if C then Some Expired
       else if D then Some SelfSubmission else if E then Some AlreadySubmitted else None)"
    unfolding precondition_failure_def A_def B_def C_def D_def E_def by (simp add: Some)
  show ?thesis
    using assms(2) unfolding pf
    by (cases A; cases B; cases C; cases D; cases E;
        simp add: submit_def BEGIN_def ROLLBACK_def select_task_def Let_def Some c st en su
          A_def [symmetric])
qed

lemma submit_cases [case_names rejected incorrect correct]:
  obtains
    (rejected) "snd (submit now dbNow db tid uid a) = db"
      and "\<exists>code msg. fst (submit now dbNow db tid uid a) = json_error code msg"
  | (incorrect) t x where "tasks db tid = Some t" and "status t = ''open''"
      and "\<not> has_submission db tid uid" and "pg_text a = Some x"
      and "submit now dbNow db tid uid a =
            (json_settled False 0,
             db\<lparr>submissions := submissions db @
                  [\<lparr>sub_task_id = tid, sub_user_id = uid, sub_answer = x,
                    sub_is_correct = False, sub_awarded_points = 0,
                    sub_validated_at = dbNow\<rparr>]\<rparr>)"
  | (correct) t x where "tasks db tid = Some t" and "status t = ''open''"
      and "\<not> has_submission db tid uid" and "pg_text a = Some x"
      and "reward_per_completion t \<le> escrow_balance t"
      and "submit now dbNow db tid uid a =
            (json_settled True (Number_of_BigInt (reward_per_completion t)),
             (let tx3 = add_points
                          ((deduct_escrow db (reward_per_completion t) tid)
                             \<lparr>submissions := submissions db @
                                [\<lparr>sub_task_id = tid, sub_user_id = uid,
                                  sub_answer = x, sub_is_correct = True,
                                  sub_awarded_points = reward_per_completion t,
                                  sub_validated_at = dbNow\<rparr>]\<rparr>)
                          (reward_per_completion t) uid
              in if max_acceptances t \<le> int (count_correct tx3 tid)
                 then close_task tx3 tid else tx3))"
proof (cases "tasks db tid")
  case None
  then have "submit now dbNow db tid uid a = (json_error 404 ''task not found'', db)"
    by (simp add: submit_def BEGIN_def ROLLBACK_def select_task_def)
  then show ?thesis using rejected by (metis fst_conv snd_conv)
next
  case (Some t)
  define B where "B \<longleftrightarrow> (case starts_at t of None \<Rightarrow> False | Some s \<Rightarrow> now < s)"
  define C where "C \<longleftrightarrow> (case ends_at t of None \<Rightarrow> False | Some e \<Rightarrow> e < now)"
  define D where "D \<longleftrightarrow> (case creator_id t of None \<Rightarrow> False | Some c \<Rightarrow> c \<noteq> 0 \<and> c = uid)"
  define V where "V \<longleftrightarrow> validate_answer (text_of (question_type t)) a (text_of (correct_answer t))"
  have su: "select_submissions db tid uid = [] \<longleftrightarrow> \<not> has_submission db tid uid"
    using select_submissions_nonempty [of db tid uid] by auto
  show ?thesis
  proof (cases "status t \<noteq> ''open'' \<or> B \<or> C \<or> D \<or> has_submission db tid uid
                \<or> (V \<and> escrow_balance t < reward_per_completion t)
                \<or> pg_text a = None")
    case True
    define is_err where "is_err r \<longleftrightarrow> (\<exists>code msg. r = (json_error code msg, db))"
      for r :: "Response \<times> Database"
    have e: "is_err (json_error code msg, db)" for code msg
      unfolding is_err_def by blast
    have "is_err (submit now dbNow db tid uid a)"
      using True
      unfolding submit_def BEGIN_def ROLLBACK_def select_task_def Let_def insert_submission_def
      by (auto simp: Some su B_def [symmetric] C_def [symmetric] D_def [symmetric]
          V_def [symmetric] e split: option.splits)
    then have "\<exists>code msg. submit now dbNow db tid uid a = (json_error code msg, db)"
      unfolding is_err_def .
    then show ?thesis using rejected by (metis fst_conv snd_conv)
  next
    case False
    then have f: "status t = ''open''" "\<not> B" "\<not> C" "\<not> D" "\<not> has_submission db tid uid"
      by auto
    from False obtain x where x: "pg_text a = Some x" by auto
    show ?thesis
    proof (cases V)
      case True
      with False have e: "reward_per_completion t \<le> escrow_balance t" by auto
      have "submit now dbNow db tid uid a =
            (json_settled True (Number_of_BigInt (reward_per_completion t)),
             (let tx3 = add_points
                          ((deduct_escrow db (reward_per_completion t) tid)
                             \<lparr>submissions := submissions db @
                                [\<lparr>sub_task_id = tid, sub_user_id = uid,
                                  sub_answer = x, sub_is_correct = True,
                                  sub_awarded_points = reward_per_completion t,
                                  sub_validated_at = dbNow\<rparr>]\<rparr>)
                          (reward_per_completion t) uid
              in if max_acceptances t \<le> int (count_correct tx3 tid)
                 then close_task tx3 tid else tx3))"
        using f e True x
        unfolding submit_def BEGIN_def ROLLBACK_def COMMIT_def select_task_def
          insert_submission_def
        by (simp add: Some su B_def [symmetric] C_def [symmetric] D_def [symmetric]
            V_def [symmetric] Let_def count_correct_def)
      then show ?thesis using correct [OF Some f(1) f(5) x e] by blast
    next
      case nv: False
      have "submit now dbNow db tid uid a =
            (json_settled False 0,
             db\<lparr>submissions := submissions db @
                  [\<lparr>sub_task_id = tid, sub_user_id = uid, sub_answer = x,
                    sub_is_correct = False, sub_awarded_points = 0,
                    sub_validated_at = dbNow\<rparr>]\<rparr>)"
        using f nv x
        unfolding submit_def BEGIN_def ROLLBACK_def COMMIT_def select_task_def
          insert_submission_def
        by (simp add: Some su B_def [symmetric] C_def [symmetric] D_def [symmetric]
            V_def [symmetric] Let_def)
      then show ?thesis using incorrect [OF Some f(1) f(5) x] by blast
    qed
  qed
qed

section \<open>Invariants\<close>

lemma submit_escrow_nonneg:
  assumes "escrow_nonneg db"
  shows "escrow_nonneg (snd (submit now dbNow db tid uid a))"
proof (cases rule: submit_cases [of now dbNow db tid uid a])
  case rejected
  then show ?thesis using assms by simp
next
  case (incorrect t x)
  then show ?thesis using assms by (simp add: escrow_nonneg_def)
next
  case (correct t x)
  then show ?thesis using assms
    by (auto simp: escrow_nonneg_def Let_def split: if_splits)
qed

lemma submit_all_escrow_nonneg:
  "escrow_nonneg db \<Longrightarrow> escrow_nonneg (submit_all db calls)"
proof (induction calls arbitrary: db)
  case Nil
  then show ?case by simp
next
  case (Cons c calls)
  obtain now dbNow tid uid a where c: "c = (now, dbNow, tid, uid, a)" by (cases c) auto
  show ?case
    unfolding c submit_all.simps
    by (rule Cons.IH) (rule submit_escrow_nonneg [OF Cons.prems])
qed

lemma submit_one_submission_per_pair:
  assumes "one_submission_per_pair db"
  shows "one_submission_per_pair (snd (submit now dbNow db tid uid a))"
proof (cases rule: submit_cases [of now dbNow db tid uid a])
  case rejected
  then show ?thesis using assms by simp
next
  case (incorrect t x)
  then show ?thesis using assms
    by (auto simp: one_submission_per_pair_def has_submission_def)
next
  case (correct t x)
  have "submissions (snd (submit now dbNow db tid uid a)) = submissions db @
          [\<lparr>sub_task_id = tid, sub_user_id = uid, sub_answer = x, sub_is_correct = True,
            sub_awarded_points = reward_per_completion t, sub_validated_at = dbNow\<rparr>]"
    by (simp add: correct(6) Let_def)
  then show ?thesis using assms correct(3)
    by (auto simp: one_submission_per_pair_def has_submission_def)
qed

lemma submit_all_one_submission_per_pair:
  "one_submission_per_pair db \<Longrightarrow> one_submission_per_pair (submit_all db calls)"
proof (induction calls arbitrary: db)
  case Nil
  then show ?case by simp
next
  case (Cons c calls)
  obtain now dbNow tid uid a where c: "c = (now, dbNow, tid, uid, a)" by (cases c) auto
  show ?case
    unfolding c submit_all.simps
    by (rule Cons.IH) (rule submit_one_submission_per_pair [OF Cons.prems])
qed

lemma submit_acceptances_bounded:
  assumes "acceptances_bounded db tid'"
  shows "acceptances_bounded (snd (submit now dbNow db tid uid a)) tid'"
proof (cases rule: submit_cases [of now dbNow db tid uid a])
  case rejected
  then show ?thesis using assms by simp
next
  case (incorrect t x)
  then show ?thesis using assms by (simp add: acceptances_bounded_def)
next
  case (correct t x)
  show ?thesis
  proof (cases "tid' = tid")
    case True
    have lt: "int (count_correct db tid) < max_acceptances t"
      using assms correct(1,2) unfolding acceptances_bounded_def True by fastforce
    show ?thesis
      unfolding acceptances_bounded_def True
      using lt correct(1) by (auto simp: correct(6) Let_def split: if_splits)
  next
    case False
    have t: "tasks (snd (submit now dbNow db tid uid a)) tid' = tasks db tid'"
      using False correct(1) by (auto simp: correct(6) Let_def split: if_splits)
    have c: "count_correct (snd (submit now dbNow db tid uid a)) tid' = count_correct db tid'"
      using False by (simp add: correct(6) Let_def)
    show ?thesis using assms unfolding acceptances_bounded_def t c .
  qed
qed

lemma submit_all_acceptances_bounded:
  "acceptances_bounded db tid' \<Longrightarrow> acceptances_bounded (submit_all db calls) tid'"
proof (induction calls arbitrary: db)
  case Nil
  then show ?case by simp
next
  case (Cons c calls)
  obtain now dbNow tid uid a where c: "c = (now, dbNow, tid, uid, a)" by (cases c) auto
  show ?case
    unfolding c submit_all.simps
    by (rule Cons.IH) (rule submit_acceptances_bounded [OF Cons.prems])
qed

lemma fresh_acceptances_bounded:
  assumes "tasks db tid = Some t" and "1 \<le> max_acceptances t" and "count_correct db tid = 0"
  shows "acceptances_bounded db tid"
  using assms by (simp add: acceptances_bounded_def)

lemma submit_closes_at_max:
  assumes "is_correct (snd (fst (submit now dbNow db tid uid a))) = Some True"
    and "tasks (snd (submit now dbNow db tid uid a)) tid = Some t'"
    and "max_acceptances t' \<le> int (count_correct (snd (submit now dbNow db tid uid a)) tid)"
  shows "status t' = ''closed''"
proof (cases rule: submit_cases [of now dbNow db tid uid a])
  case rejected
  then show ?thesis using assms(1) by (auto simp: json_error_def)
next
  case (incorrect t x)
  then show ?thesis using assms(1) by (simp add: json_settled_def)
next
  case (correct t x)
  then show ?thesis using assms(2,3)
    by (auto simp: Let_def split: if_splits)
qed

section \<open>Further facts on the two handlers\<close>

lemma submit_insufficient_escrow:
  assumes "precondition_failure now db tid uid = None"
    and "tasks db tid = Some t"
    and "validate_answer (text_of (question_type t)) a (text_of (correct_answer t))"
    and "escrow_balance t < reward_per_completion t"
  shows "submit now dbNow db tid uid a = (error_response InsufficientEscrow, db)"
  using assms(3,4) by (simp add: submit_passes [OF assms(1,2)])

lemma submit_correct:
  assumes "precondition_failure now db tid uid = None"
    and "tasks db tid = Some t"
    and "validate_answer (text_of (question_type t)) a (text_of (correct_answer t))"
    and "reward_per_completion t \<le> escrow_balance t"
  obtains x where "pg_text a = Some x"
    and "submit now dbNow db tid uid a =
            (json_settled True (Number_of_BigInt (reward_per_completion t)),
             (let tx3 = add_points
                          ((deduct_escrow db (reward_per_completion t) tid)
                             \<lparr>submissions := submissions db @
                                [\<lparr>sub_task_id = tid, sub_user_id = uid,
                                  sub_answer = x, sub_is_correct = True,
                                  sub_awarded_points = reward_per_completion t,
                                  sub_validated_at = dbNow\<rparr>]\<rparr>)
                          (reward_per_completion t) uid
              in if max_acceptances t \<le> int (count_correct tx3 tid)
                 then close_task tx3 tid else tx3))"
proof -
  from validated_answer_accepted [OF assms(3)] obtain x where x: "pg_text a = Some x" ..
  show ?thesis
    using assms(3,4) by (intro that [OF x]) (simp add: submit_passes [OF assms(1,2)] x)
qed

lemma handler_runs_submit:
  assumes "fst (fst (handler now dbNow db req)) \<notin> {401, 405}"
    and "snd (fst (handler now dbNow db req))
           \<noteq> snd (json_error 400 ''task_id and answer are required'')"
  shows "\<exists>task_id userId answer. userId \<noteq> 0 \<and> task_id \<noteq> 0
           \<and> req_userId req = Some userId \<and> req_task_id req = Some task_id
           \<and> req_answer req = Some answer
           \<and> handler now dbNow db req = submit now dbNow db task_id userId answer"
  using assms
  by (auto simp: handler_def json_error_def split: if_splits option.splits)

lemma official_handler_accepted:
  assumes "fst (fst (official_handler secret row_ok db req)) = 200"
  obtains q qtype ch correct where
    "official_handler secret row_ok db req =
       (json_created (tasks_id_seq db + 1),
        db\<lparr>tasks_id_seq := tasks_id_seq db + 1,
           tasks := (tasks db)(tasks_id_seq db + 1 \<mapsto> official_row req q qtype ch correct)\<rparr>)"
    and "row_ok (official_row req q qtype ch correct)"
  using assms
  by (auto simp: official_handler_def json_error_def json_created_def Let_def
      split: if_splits option.splits)

lemma example_request_accepted:
  "official_handler (Some ''s3cret'') no_constraints
     (example_db (example_task None ''open'' 25) []) (example_request reward maxacc)
   = (json_created 2,
      (example_db (example_task None ''open'' 25) [])
        \<lparr>tasks_id_seq := 2,
         tasks := (tasks (example_db (example_task None ''open'' 25) []))
                    (2 \<mapsto> official_row (example_request reward maxacc)
                            (pg_literal ''A or B?'') (pg_literal ''mcq'') None
                            (pg_literal ''B''))\<rparr>)"
proof -
  have n: "js ''A or B?'' \<noteq> []" "js ''mcq'' \<noteq> []" "js ''B'' \<noteq> []"
    by (simp_all add: js_def)
  have c: "choicesJson (example_request reward maxacc) = None"
    by (simp add: choicesJson_def example_request_def)
  have r: "o_method (example_request reward maxacc) = ''POST''"
    "o_admin_secret (example_request reward maxacc) = Some ''s3cret''"
    "o_question (example_request reward maxacc) = Some (js ''A or B?'')"
    "o_question_type (example_request reward maxacc) = Some (js ''mcq'')"
    "o_correct_answer (example_request reward maxacc) = Some (js ''B'')"
    by (simp_all add: example_request_def)
  have d: "tasks_id_seq (example_db (example_task None ''open'' 25) []) = 1"
    "tasks (example_db (example_task None ''open'' 25) []) 2 = None"
    by (simp_all add: example_db_def)
  show ?thesis
    unfolding official_handler_def
    by (simp add: r n c d pg_text_literal pg_text_or_null_def falsy_def no_constraints_def
        Let_def)
qed

lemma example_validates_stored:
  "validate_answer (text_of (pg_literal ''mcq'')) (js ''B'') (text_of (pg_literal '' B ''))"
  "validate_answer (text_of (pg_literal ''mcq'')) (js ''B'') (text_of (pg_literal ''B''))"
  "validate_answer (text_of (pg_literal ''mcq'')) (js '' B'') (text_of (pg_literal ''B''))"
  "\<not> validate_answer (text_of (pg_literal ''mcq'')) (js ''A'') (text_of (pg_literal '' B ''))"
  by (simp_all add: text_of_pg_literal validate_answer_def trim_def isWhiteSpace_def js_def)

section \<open>Facts on the example data\<close>

lemma example_task_fields:
  "question_type (example_task c st e) = pg_literal ''mcq''"
  "correct_answer (example_task c st e) = pg_literal '' B ''"
  "reward_per_completion (example_task c st e) = 10"
  "max_acceptances (example_task c st e) = 5"
  "escrow_balance (example_task c st e) = e"
  "status (example_task c st e) = st"
  "creator_id (example_task c st e) = c"
  "starts_at (example_task c st e) = None"
  "ends_at (example_task c st e) = None"
  by (simp_all add: example_task_def)

lemma example_db_fields:
  "tasks (example_db t subs) 1 = Some t"
  "tasks (example_db t subs) 2 = None"
  "tasks (example_db t subs) 9 = None"
  "submissions (example_db t subs) = subs"
  "users (example_db t subs) 2 = Some 0"
  "users (example_db t subs) 3 = Some 40"
  "users (example_db t subs) 9 = None"
  "tasks_id_seq (example_db t subs) = 1"
  "count_correct (example_db t []) tid = 0"
  by (simp_all add: example_db_def count_correct_def)

lemma example_validates:
  "validate_answer (text_of (question_type (example_task c st e))) (js ''B'')
     (text_of (correct_answer (example_task c st e)))"
  by (simp add: example_task_fields text_of_pg_literal validate_answer_def trim_def
      isWhiteSpace_def js_def)

lemma Number_of_BigInt_small:
  "Number_of_BigInt 10 = 10" "Number_of_BigInt 0 = 0"
  by (simp_all add: Number_of_BigInt_def)

section \<open>The preconditions\<close>

text \<open>
  Claim C6. \<^verbatim>\<open>submit\<close> checks the six preconditions in the order of the specification:
  when \<open>e\<close> is the first one violated, the call answers with the response of \<open>e\<close> and
  leaves the database as it was. The user identifier is not 0, since the handler
  answers 401 before the transaction when it is.
\<close>

theorem preconditions_checked_in_order:
  assumes "userId \<noteq> 0"
    and "precondition_failure now db task_id userId = Some e"
  shows "submit now dbNow db task_id userId answer = (error_response e, db)"
  using assms by (rule submit_rejects)

text \<open>
  The scenario of section 8: the creator 7 submits to their own task. And a task
  identifier that no task has.
\<close>

theorem preconditions_checked_in_order_witness:
  "(7::int) \<noteq> 0
   \<and> precondition_failure 0 (example_db (example_task (Some 7) ''open'' 25) []) 1 7
       = Some SelfSubmission
   \<and> submit 0 0 (example_db (example_task (Some 7) ''open'' 25) []) 1 7 (js ''B'')
       = (error_response SelfSubmission, example_db (example_task (Some 7) ''open'' 25) [])
   \<and> precondition_failure 0 (example_db (example_task (Some 7) ''open'' 25) []) 9 7
       = Some NotFound
   \<and> submit 0 0 (example_db (example_task (Some 7) ''open'' 25) []) 9 7 (js ''B'')
       = (error_response NotFound, example_db (example_task (Some 7) ''open'' 25) [])"
proof -
  have n: "(7::int) \<noteq> 0" by simp
  have p1: "precondition_failure 0 (example_db (example_task (Some 7) ''open'' 25) []) 1 7
       = Some SelfSubmission"
    by (simp add: precondition_failure_def example_db_fields example_task_fields)
  have p2: "precondition_failure 0 (example_db (example_task (Some 7) ''open'' 25) []) 9 7
       = Some NotFound"
    by (simp add: precondition_failure_def example_db_fields)
  show ?thesis
    using n p1 p2 preconditions_checked_in_order [OF n p1, of 0 "js ''B''"]
      preconditions_checked_in_order [OF n p2, of 0 "js ''B''"]
    by simp
qed

section \<open>Insufficient escrow\<close>

text \<open>
  Claim C1. With an escrow balance below the reward, a correct answer is answered with
  the insufficient-escrow error, no submission is recorded and nothing is deducted. The
  claim also has the task closed afterwards. The handler does issue the UPDATE that
  closes the task, and then rolls the transaction back, which undoes it: on the task
  with reward 10 and escrow 5 the database after the call is the database before it,
  and the task is still \<open>open\<close>.
\<close>

theorem insufficient_escrow_leaves_task_open:
  "submit 0 0 (example_db (example_task None ''open'' 5) []) 1 2 (js ''B'')
     = (json_error 400 ''insufficient escrow to pay reward; task closed'',
        example_db (example_task None ''open'' 5) [])
   \<and> map_option status
        (tasks (snd (submit 0 0 (example_db (example_task None ''open'' 5) []) 1 2 (js ''B''))) 1)
     = Some ''open''"
proof -
  have p: "precondition_failure 0 (example_db (example_task None ''open'' 5) []) 1 2 = None"
    by (simp add: precondition_failure_def example_db_fields example_task_fields
        has_submission_def)
  have t: "tasks (example_db (example_task None ''open'' 5) []) 1
            = Some (example_task None ''open'' 5)"
    by (simp add: example_db_fields)
  have "submit 0 0 (example_db (example_task None ''open'' 5) []) 1 2 (js ''B'')
     = (json_error 400 ''insufficient escrow to pay reward; task closed'',
        example_db (example_task None ''open'' 5) [])"
    using example_validates [of None "''open''" 5]
    by (simp add: submit_passes [OF p t]) (simp add: example_task_fields)
  then show ?thesis by (simp add: t example_task_fields)
qed

section \<open>Correct and incorrect answers\<close>

text \<open>
  Claim C2, as amended. When the six preconditions pass, the answer is correct and the
  escrow balance covers the reward, the call debits the task's escrow balance by the
  reward, appends a submission with \<open>is_correct = true\<close>, the reward as awarded
  points and the answer as the database stores it, adds the reward to the points of
  the user's row when the user has one, and answers \<open>is_correct: true\<close> with
  \<open>awarded_points: Number(reward)\<close>. That number is the reward itself whenever the
  reward is at most \<open>2^53\<close> in magnitude. The INSERT cannot be refused here: an answer
  with U+0000 does not validate against a stored answer, which has none.
\<close>

theorem settle_correct_award:
  assumes "precondition_failure now db task_id userId = None"
    and "tasks db task_id = Some t"
    and "validate_answer (text_of (question_type t)) answer (text_of (correct_answer t))"
    and "reward_per_completion t \<le> escrow_balance t"
  shows "case submit now dbNow db task_id userId answer of (resp, db') \<Rightarrow>
           (\<exists>t'. tasks db' task_id = Some t'
                \<and> escrow_balance t' = escrow_balance t - reward_per_completion t)
         \<and> (\<exists>a. pg_text answer = Some a \<and> text_of a = utf8_text answer
                \<and> submissions db' = submissions db @
                     [\<lparr>sub_task_id = task_id, sub_user_id = userId, sub_answer = a,
                       sub_is_correct = True, sub_awarded_points = reward_per_completion t,
                       sub_validated_at = dbNow\<rparr>])
         \<and> (\<forall>p. users db userId = Some p \<longrightarrow>
               users db' userId = Some (p + reward_per_completion t))
         \<and> resp = json_settled True (Number_of_BigInt (reward_per_completion t))
         \<and> (\<bar>reward_per_completion t\<bar> \<le> 2 ^ 53 \<longrightarrow>
              resp = json_settled True (reward_per_completion t))"
proof -
  from assms obtain x where x: "pg_text answer = Some x"
    and s: "submit now dbNow db task_id userId answer =
            (json_settled True (Number_of_BigInt (reward_per_completion t)),
             (let tx3 = add_points
                          ((deduct_escrow db (reward_per_completion t) task_id)
                             \<lparr>submissions := submissions db @
                                [\<lparr>sub_task_id = task_id, sub_user_id = userId,
                                  sub_answer = x, sub_is_correct = True,
                                  sub_awarded_points = reward_per_completion t,
                                  sub_validated_at = dbNow\<rparr>]\<rparr>)
                          (reward_per_completion t) userId
              in if max_acceptances t \<le> int (count_correct tx3 task_id)
                 then close_task tx3 task_id else tx3))"
    by (rule submit_correct)
  have u: "text_of x = utf8_text answer"
    using x by (simp add: pg_text_eq_Some)
  show ?thesis
    unfolding s using x u
    by (auto simp: assms(2) Let_def Number_of_BigInt_exact)
qed

text \<open>The task with reward 10 and escrow 25; user 3 has 40 points before the call.\<close>

theorem settle_correct_award_witness:
  "precondition_failure 0 (example_db (example_task None ''open'' 25) []) 1 3 = None
   \<and> tasks (example_db (example_task None ''open'' 25) []) 1
       = Some (example_task None ''open'' 25)
   \<and> validate_answer (text_of (question_type (example_task None ''open'' 25))) (js ''B'')
       (text_of (correct_answer (example_task None ''open'' 25)))
   \<and> reward_per_completion (example_task None ''open'' 25)
       \<le> escrow_balance (example_task None ''open'' 25)
   \<and> users (example_db (example_task None ''open'' 25) []) 3 = Some 40
   \<and> \<bar>reward_per_completion (example_task None ''open'' 25)\<bar> \<le> 2 ^ 53
   \<and> pg_text (js ''B'') = Some (pg_literal ''B'')
   \<and> (case submit 0 8 (example_db (example_task None ''open'' 25) []) 1 3 (js ''B'') of
        (resp, db') \<Rightarrow>
          map_option escrow_balance (tasks db' 1) = Some 15
          \<and> submissions db' =
              [\<lparr>sub_task_id = 1, sub_user_id = 3, sub_answer = pg_literal ''B'',
                sub_is_correct = True, sub_awarded_points = 10, sub_validated_at = 8\<rparr>]
          \<and> users db' 3 = Some 50
          \<and> resp = json_settled True 10)"
proof -
  have p: "precondition_failure 0 (example_db (example_task None ''open'' 25) []) 1 3 = None"
    by (simp add: precondition_failure_def example_db_fields example_task_fields
        has_submission_def)
  have t: "tasks (example_db (example_task None ''open'' 25) []) 1
            = Some (example_task None ''open'' 25)"
    by (simp add: example_db_fields)
  have v: "validate_answer (text_of (question_type (example_task None ''open'' 25))) (js ''B'')
       (text_of (correct_answer (example_task None ''open'' 25)))"
    by (rule example_validates)
  have r: "reward_per_completion (example_task None ''open'' 25)
       \<le> escrow_balance (example_task None ''open'' 25)"
    by (simp add: example_task_fields)
  have u: "users (example_db (example_task None ''open'' 25) []) 3 = Some 40"
    by (simp add: example_db_fields)
  have s: "submissions (example_db (example_task None ''open'' 25) []) = []"
    by (simp add: example_db_fields)
  have b: "\<bar>reward_per_completion (example_task None ''open'' 25)\<bar> \<le> 2 ^ 53"
    by (simp add: example_task_fields)
  have x: "reward_per_completion (example_task None ''open'' 25) = 10"
      "escrow_balance (example_task None ''open'' 25) = 25"
    by (simp_all add: example_task_fields)
  have l: "pg_text (js ''B'') = Some (pg_literal ''B'')"
    by (rule pg_text_literal)
  show ?thesis
    using settle_correct_award [OF p t v r, of 8] p t v r u b l
    by (auto simp: s x split: prod.splits)
qed

text \<open>
  Claim C2 as the specification states it has the response carry the reward itself,
  and the points of the user increased. A reward of \<open>2^53 + 1\<close> is debited, recorded
  and credited exactly, and the response says \<open>2^53\<close>. And for user 9, who has no row
  in \<^verbatim>\<open>users\<close>, the UPDATE of the points changes no row and the handler does not look
  at its row count: the escrow is debited by 10, the submission is recorded with 10
  awarded points, the response says 10, and no points are credited.
\<close>

theorem settle_correct_award_counterexample:
  "precondition_failure 0 (example_db big_reward_task []) 1 3 = None
   \<and> validate_answer (text_of (question_type big_reward_task)) (js ''B'')
       (text_of (correct_answer big_reward_task))
   \<and> reward_per_completion big_reward_task \<le> escrow_balance big_reward_task
   \<and> reward_per_completion big_reward_task = 9007199254740993
   \<and> fst (submit 0 8 (example_db big_reward_task []) 1 3 (js ''B''))
       = json_settled True 9007199254740992
   \<and> fst (submit 0 8 (example_db big_reward_task []) 1 3 (js ''B''))
       \<noteq> json_settled True (reward_per_completion big_reward_task)
   \<and> precondition_failure 0 (example_db (example_task None ''open'' 25) []) 1 9 = None
   \<and> validate_answer (text_of (question_type (example_task None ''open'' 25))) (js ''B'')
       (text_of (correct_answer (example_task None ''open'' 25)))
   \<and> reward_per_completion (example_task None ''open'' 25)
       \<le> escrow_balance (example_task None ''open'' 25)
   \<and> users (example_db (example_task None ''open'' 25) []) 9 = None
   \<and> fst (submit 0 8 (example_db (example_task None ''open'' 25) []) 1 9 (js ''B''))
       = json_settled True 10
   \<and> map_option escrow_balance
        (tasks (snd (submit 0 8 (example_db (example_task None ''open'' 25) []) 1 9 (js ''B''))) 1)
       = Some 15
   \<and> submissions (snd (submit 0 8 (example_db (example_task None ''open'' 25) []) 1 9 (js ''B'')))
       = [\<lparr>sub_task_id = 1, sub_user_id = 9, sub_answer = pg_literal ''B'',
           sub_is_correct = True, sub_awarded_points = 10, sub_validated_at = 8\<rparr>]
   \<and> users (snd (submit 0 8 (example_db (example_task None ''open'' 25) []) 1 9 (js ''B'')))
       = users (example_db (example_task None ''open'' 25) [])"
proof -
  have bf: "question_type big_reward_task = pg_literal ''mcq''"
    "correct_answer big_reward_task = pg_literal '' B ''"
    "status big_reward_task = ''open''" "creator_id big_reward_task = None"
    "starts_at big_reward_task = None" "ends_at big_reward_task = None"
    "max_acceptances big_reward_task = 5"
    by (simp_all add: big_reward_task_def example_task_fields)
  have p: "precondition_failure 0 (example_db big_reward_task []) 1 3 = None"
    by (simp add: precondition_failure_def example_db_fields bf has_submission_def)
  have t: "tasks (example_db big_reward_task []) 1 = Some big_reward_task"
    by (simp add: example_db_fields)
  have v: "validate_answer (text_of (question_type big_reward_task)) (js ''B'')
             (text_of (correct_answer big_reward_task))"
    using example_validates [of None "''open''" 25] by (simp add: bf example_task_fields)
  have r: "reward_per_completion big_reward_task = 9007199254740993"
    by (simp add: big_reward_task_def)
  have e: "escrow_balance big_reward_task = 18014398509481984"
    by (simp add: big_reward_task_def example_task_fields)
  have n: "Number_of_BigInt 9007199254740993 = 9007199254740992"
    by (simp add: Number_of_BigInt_def bit_length.simps Let_def)
  have s: "fst (submit 0 8 (example_db big_reward_task []) 1 3 (js ''B''))
       = json_settled True 9007199254740992"
    using v by (simp add: submit_passes [OF p t] r e n pg_text_literal)
  have p': "precondition_failure 0 (example_db (example_task None ''open'' 25) []) 1 9 = None"
    by (simp add: precondition_failure_def example_db_fields example_task_fields
        has_submission_def)
  have t': "tasks (example_db (example_task None ''open'' 25) []) 1
            = Some (example_task None ''open'' 25)"
    by (simp add: example_db_fields)
  have v': "validate_answer (text_of (question_type (example_task None ''open'' 25))) (js ''B'')
       (text_of (correct_answer (example_task None ''open'' 25)))"
    by (rule example_validates)
  note ev = submit_passes [OF p' t'] example_task_fields example_db_fields pg_text_literal
    Number_of_BigInt_small Let_def count_correct_def
  have s1: "fst (submit 0 8 (example_db (example_task None ''open'' 25) []) 1 9 (js ''B''))
       = json_settled True 10"
    using v' by (simp add: ev)
  have s2: "map_option escrow_balance
        (tasks (snd (submit 0 8 (example_db (example_task None ''open'' 25) []) 1 9 (js ''B''))) 1)
       = Some 15"
    using v' by (simp add: ev)
  have s3: "submissions
        (snd (submit 0 8 (example_db (example_task None ''open'' 25) []) 1 9 (js ''B'')))
       = [\<lparr>sub_task_id = 1, sub_user_id = 9, sub_answer = pg_literal ''B'',
           sub_is_correct = True, sub_awarded_points = 10, sub_validated_at = 8\<rparr>]"
    using v' by (simp add: ev)
  have s4: "users (snd (submit 0 8 (example_db (example_task None ''open'' 25) []) 1 9 (js ''B'')))
       = users (example_db (example_task None ''open'' 25) [])"
    using v' by (simp add: ev)
  show ?thesis
    using p v s p' v' s1 s2 s3 s4
    by (simp add: r e json_settled_def example_task_fields example_db_fields)
qed

text \<open>
  Claim C8, as amended. When the six preconditions pass and the answer is incorrect,
  the call commits one more submission, with \<open>is_correct = false\<close>, no awarded points
  and the answer as the database stores it, changes nothing else (the tasks, with
  their escrow balances, and the users' points are as before) and answers
  \<open>is_correct: false, awarded_points: 0\<close>, unless the answer contains U+0000: then
  the database refuses the INSERT, the transaction is rolled back, nothing is
  recorded and the answer is the internal error with status 500.
\<close>

theorem settle_incorrect_records_zero:
  assumes "precondition_failure now db task_id userId = None"
    and "tasks db task_id = Some t"
    and "\<not> validate_answer (text_of (question_type t)) answer (text_of (correct_answer t))"
  shows "submit now dbNow db task_id userId answer =
           (case pg_text answer of
              None \<Rightarrow> (json_error 500 ''internal error'', db)
            | Some a \<Rightarrow>
               (json_settled False 0,
                db\<lparr>submissions := submissions db @
                     [\<lparr>sub_task_id = task_id, sub_user_id = userId, sub_answer = a,
                       sub_is_correct = False, sub_awarded_points = 0,
                       sub_validated_at = dbNow\<rparr>]\<rparr>))
         \<and> (pg_text answer = None \<longleftrightarrow> 0 \<in> set answer)
         \<and> (\<forall>a. pg_text answer = Some a \<longrightarrow> text_of a = utf8_text answer)
         \<and> tasks (snd (submit now dbNow db task_id userId answer)) = tasks db
         \<and> users (snd (submit now dbNow db task_id userId answer)) = users db"
  using assms(3)
  by (auto simp: submit_passes [OF assms(1,2)] pg_text_eq_None pg_text_eq_Some pg_refuses_def
      split: option.splits)

text \<open>The answer \<open>A\<close> to the example task, whose answer is \<open>B\<close>.\<close>

theorem settle_incorrect_records_zero_witness:
  "precondition_failure 0 (example_db (example_task None ''open'' 25) []) 1 3 = None
   \<and> tasks (example_db (example_task None ''open'' 25) []) 1
       = Some (example_task None ''open'' 25)
   \<and> \<not> validate_answer (text_of (question_type (example_task None ''open'' 25))) (js ''A'')
       (text_of (correct_answer (example_task None ''open'' 25)))
   \<and> 0 \<notin> set (js ''A'')
   \<and> pg_text (js ''A'') = Some (pg_literal ''A'')
   \<and> fst (submit 0 8 (example_db (example_task None ''open'' 25) []) 1 3 (js ''A''))
       = json_settled False 0
   \<and> submissions (snd (submit 0 8 (example_db (example_task None ''open'' 25) []) 1 3 (js ''A'')))
       = [\<lparr>sub_task_id = 1, sub_user_id = 3, sub_answer = pg_literal ''A'',
           sub_is_correct = False, sub_awarded_points = 0, sub_validated_at = 8\<rparr>]
   \<and> map_option escrow_balance
        (tasks (snd (submit 0 8 (example_db (example_task None ''open'' 25) []) 1 3 (js ''A''))) 1)
       = Some 25
   \<and> users (snd (submit 0 8 (example_db (example_task None ''open'' 25) []) 1 3 (js ''A''))) 3
       = Some 40"
proof -
  have p: "precondition_failure 0 (example_db (example_task None ''open'' 25) []) 1 3 = None"
    by (simp add: precondition_failure_def example_db_fields example_task_fields
        has_submission_def)
  have t: "tasks (example_db (example_task None ''open'' 25) []) 1
            = Some (example_task None ''open'' 25)"
    by (simp add: example_db_fields)
  have v: "\<not> validate_answer (text_of (question_type (example_task None ''open'' 25))) (js ''A'')
       (text_of (correct_answer (example_task None ''open'' 25)))"
    by (simp add: example_task_fields text_of_pg_literal validate_answer_def trim_def
      isWhiteSpace_def js_def)
  have z: "0 \<notin> set (js ''A'')" by (simp add: js_def)
  have l: "pg_text (js ''A'') = Some (pg_literal ''A'')" by (rule pg_text_literal)
  show ?thesis
    using settle_incorrect_records_zero [OF p t v, of 8] p t v z
    by (simp add: l example_db_fields example_task_fields json_settled_def)
qed

text \<open>
  Claim C8 as the specification states it has every incorrect answer recorded. The
  answer that is the one character U+0000 is incorrect for the example task; the
  call answers 500 and the database has no submission afterwards.
\<close>

theorem nul_answer_not_recorded_counterexample:
  "precondition_failure 0 (example_db (example_task None ''open'' 25) []) 1 3 = None
   \<and> \<not> validate_answer (text_of (question_type (example_task None ''open'' 25))) [0]
       (text_of (correct_answer (example_task None ''open'' 25)))
   \<and> submit 0 8 (example_db (example_task None ''open'' 25) []) 1 3 [0]
       = (json_error 500 ''internal error'', example_db (example_task None ''open'' 25) [])
   \<and> fst (submit 0 8 (example_db (example_task None ''open'' 25) []) 1 3 [0])
       \<noteq> json_settled False 0
   \<and> submissions (snd (submit 0 8 (example_db (example_task None ''open'' 25) []) 1 3 [0])) = []"
proof -
  have p: "precondition_failure 0 (example_db (example_task None ''open'' 25) []) 1 3 = None"
    by (simp add: precondition_failure_def example_db_fields example_task_fields
        has_submission_def)
  have t: "tasks (example_db (example_task None ''open'' 25) []) 1
            = Some (example_task None ''open'' 25)"
    by (simp add: example_db_fields)
  have v: "\<not> validate_answer (text_of (question_type (example_task None ''open'' 25))) [0]
       (text_of (correct_answer (example_task None ''open'' 25)))"
    by (simp add: example_task_fields text_of_pg_literal validate_answer_def trim_def
      isWhiteSpace_def js_def)
  have n: "pg_text [0] = None" by (simp add: pg_text_eq_None pg_refuses_def)
  have s: "submit 0 8 (example_db (example_task None ''open'' 25) []) 1 3 [0]
       = (json_error 500 ''internal error'', example_db (example_task None ''open'' 25) [])"
    using v by (simp add: submit_passes [OF p t] n)
  show ?thesis
    using p v by (simp add: s json_error_def json_settled_def example_db_fields)
qed

lemma submit_task_kept:
  assumes "tasks db tid' = Some t"
  shows "\<exists>t'. tasks (snd (submit now dbNow db tid uid a)) tid' = Some t'
           \<and> max_acceptances t' = max_acceptances t"
proof (cases rule: submit_cases [of now dbNow db tid uid a])
  case rejected
  then show ?thesis using assms by simp
next
  case (incorrect t0 x)
  then show ?thesis using assms by simp
next
  case (correct t0 x)
  then show ?thesis using assms
    by (cases "tid' = tid") (auto simp: Let_def)
qed

lemma submit_all_task_kept:
  "tasks db tid' = Some t \<Longrightarrow>
     \<exists>t'. tasks (submit_all db calls) tid' = Some t' \<and> max_acceptances t' = max_acceptances t"
proof (induction calls arbitrary: db t)
  case Nil
  then show ?case by simp
next
  case (Cons c calls)
  obtain now dbNow tid uid a where c: "c = (now, dbNow, tid, uid, a)" by (cases c) auto
  from submit_task_kept [OF Cons.prems, of now dbNow tid uid a]
  obtain t1 where t1: "tasks (snd (submit now dbNow db tid uid a)) tid' = Some t1"
    and m1: "max_acceptances t1 = max_acceptances t" by blast
  from Cons.IH [OF t1] show ?case
    unfolding c submit_all.simps using m1 by simp
qed

section \<open>Sequences of calls\<close>

text \<open>
  Claim C3. If no task has a negative escrow balance, then none has after each call of
  any sequence of \<^verbatim>\<open>submit\<close> calls: the escrow is debited only when it covers the
  reward.
\<close>

theorem escrow_never_negative:
  assumes "escrow_nonneg db"
  shows "escrow_nonneg (submit_all db (take n calls))"
  using assms by (rule submit_all_escrow_nonneg)

text \<open>
  The scenario of section 8: reward 10 and escrow 25; after two correct submissions by
  the users 2 and 3 the escrow balance is 5.
\<close>

theorem escrow_never_negative_witness:
  "escrow_nonneg (example_db (example_task None ''open'' 25) [])
   \<and> escrow_nonneg
       (submit_all (example_db (example_task None ''open'' 25) [])
          (take 2 [(0, 8, 1, 2, js ''B''), (0, 8, 1, 3, js ''B''), (0, 8, 1, 4, js ''B'')]))
   \<and> map_option escrow_balance
       (tasks (submit_all (example_db (example_task None ''open'' 25) [])
          (take 2 [(0, 8, 1, 2, js ''B''), (0, 8, 1, 3, js ''B''), (0, 8, 1, 4, js ''B'')])) 1)
       = Some 5"
proof -
  have h: "escrow_nonneg (example_db (example_task None ''open'' 25) [])"
    by (simp add: escrow_nonneg_def example_db_def example_task_def)
  have v: "validate_answer (text_of (pg_literal ''mcq'')) (js ''B'') (text_of (pg_literal '' B ''))"
    by (rule example_validates_stored)
  have e: "map_option escrow_balance
       (tasks (submit_all (example_db (example_task None ''open'' 25) [])
          (take 2 [(0, 8, 1, 2, js ''B''), (0, 8, 1, 3, js ''B''), (0, 8, 1, 4, js ''B'')])) 1)
       = Some 5"
    using v
    by (simp add: submit_def BEGIN_def COMMIT_def ROLLBACK_def select_task_def
        select_submissions_def insert_submission_def example_db_def example_task_def
        pg_text_literal Let_def count_correct_def)
  show ?thesis
    using h e escrow_never_negative [OF h, of 2
        "[(0, 8, 1, 2, js ''B''), (0, 8, 1, 3, js ''B''), (0, 8, 1, 4, js ''B'')]"]
    by simp
qed

text \<open>
  Claim C5, as amended. Take a task whose correct submissions are at most
  \<open>max_acceptances\<close> and which is \<open>closed\<close> if they have reached it. Then the same
  holds for this task after each call of any sequence of \<^verbatim>\<open>submit\<close> calls, whatever
  the other tasks are. A task with \<open>max_acceptances\<close> of at least 1 and no correct
  submission yet is such a task: after each call its correct submissions are at most
  \<open>max_acceptances\<close>, and it is \<open>closed\<close> once they have reached it. And the call
  that accepts an answer closes the task in the same transaction when the number of
  correct submissions, this one included, has reached \<open>max_acceptances\<close>.
\<close>

theorem acceptances_never_exceed_max:
  "(acceptances_bounded db tid \<longrightarrow> acceptances_bounded (submit_all db (take n calls)) tid)
   \<and> (\<forall>t. tasks db tid = Some t \<and> 1 \<le> max_acceptances t \<and> count_correct db tid = 0 \<longrightarrow>
         (\<exists>t'. tasks (submit_all db (take n calls)) tid = Some t'
              \<and> max_acceptances t' = max_acceptances t
              \<and> int (count_correct (submit_all db (take n calls)) tid) \<le> max_acceptances t
              \<and> (max_acceptances t \<le> int (count_correct (submit_all db (take n calls)) tid)
                   \<longrightarrow> status t' = ''closed'')))
   \<and> (\<forall>t'. is_correct (snd (fst (submit now dbNow db task_id userId answer))) = Some True
           \<and> tasks (snd (submit now dbNow db task_id userId answer)) task_id = Some t'
           \<and> max_acceptances t'
               \<le> int (count_correct (snd (submit now dbNow db task_id userId answer)) task_id)
           \<longrightarrow> status t' = ''closed'')"
proof (intro conjI allI impI)
  assume "acceptances_bounded db tid"
  then show "acceptances_bounded (submit_all db (take n calls)) tid"
    by (rule submit_all_acceptances_bounded)
next
  fix t
  assume a: "tasks db tid = Some t \<and> 1 \<le> max_acceptances t \<and> count_correct db tid = 0"
  then have "acceptances_bounded db tid"
    by (intro fresh_acceptances_bounded [of db tid t]) simp_all
  then have b: "acceptances_bounded (submit_all db (take n calls)) tid"
    by (rule submit_all_acceptances_bounded)
  from a obtain t' where t': "tasks (submit_all db (take n calls)) tid = Some t'"
    and m: "max_acceptances t' = max_acceptances t"
    using submit_all_task_kept [of db tid t "take n calls"] by blast
  show "\<exists>t'. tasks (submit_all db (take n calls)) tid = Some t'
              \<and> max_acceptances t' = max_acceptances t
              \<and> int (count_correct (submit_all db (take n calls)) tid) \<le> max_acceptances t
              \<and> (max_acceptances t \<le> int (count_correct (submit_all db (take n calls)) tid)
                   \<longrightarrow> status t' = ''closed'')"
    using b t' m unfolding acceptances_bounded_def by auto
next
  fix t'
  assume "is_correct (snd (fst (submit now dbNow db task_id userId answer))) = Some True
           \<and> tasks (snd (submit now dbNow db task_id userId answer)) task_id = Some t'
           \<and> max_acceptances t'
               \<le> int (count_correct (snd (submit now dbNow db task_id userId answer)) task_id)"
  then show "status t' = ''closed''"
    using submit_closes_at_max [of now dbNow db task_id userId answer t'] by blast
qed

lemma one_acceptance_db_fields:
  "tasks one_acceptance_db 1 = Some ((example_task None ''open'' 25)\<lparr>max_acceptances := 1\<rparr>)"
  "count_correct one_acceptance_db 1 = 0"
  "submissions one_acceptance_db = []"
  "precondition_failure now one_acceptance_db 1 2 = None"
  "validate_answer
     (text_of (question_type ((example_task None ''open'' 25)\<lparr>max_acceptances := 1\<rparr>))) (js ''B'')
     (text_of (correct_answer ((example_task None ''open'' 25)\<lparr>max_acceptances := 1\<rparr>)))"
  "reward_per_completion ((example_task None ''open'' 25)\<lparr>max_acceptances := 1\<rparr>) = 10"
  "escrow_balance ((example_task None ''open'' 25)\<lparr>max_acceptances := 1\<rparr>) = 25"
  "max_acceptances ((example_task None ''open'' 25)\<lparr>max_acceptances := 1\<rparr>) = 1"
proof -
  show "tasks one_acceptance_db 1 = Some ((example_task None ''open'' 25)\<lparr>max_acceptances := 1\<rparr>)"
    by (simp add: one_acceptance_db_def example_db_fields)
  show "count_correct one_acceptance_db 1 = 0"
    by (simp add: one_acceptance_db_def example_db_fields)
  show "submissions one_acceptance_db = []"
    by (simp add: one_acceptance_db_def example_db_fields)
  show "precondition_failure now one_acceptance_db 1 2 = None"
    by (simp add: precondition_failure_def one_acceptance_db_def example_db_fields
        example_task_fields has_submission_def)
  show "validate_answer
     (text_of (question_type ((example_task None ''open'' 25)\<lparr>max_acceptances := 1\<rparr>))) (js ''B'')
     (text_of (correct_answer ((example_task None ''open'' 25)\<lparr>max_acceptances := 1\<rparr>)))"
    using example_validates [of None "''open''" 25] by simp
  show "reward_per_completion ((example_task None ''open'' 25)\<lparr>max_acceptances := 1\<rparr>) = 10"
    "escrow_balance ((example_task None ''open'' 25)\<lparr>max_acceptances := 1\<rparr>) = 25"
    "max_acceptances ((example_task None ''open'' 25)\<lparr>max_acceptances := 1\<rparr>) = 1"
    by (simp_all add: example_task_fields)
qed

lemma one_acceptance_first_call:
  "fst (submit 0 8 one_acceptance_db 1 2 (js ''B'')) = json_settled True 10"
  "count_correct (snd (submit 0 8 one_acceptance_db 1 2 (js ''B''))) 1 = 1"
  "map_option max_acceptances (tasks (snd (submit 0 8 one_acceptance_db 1 2 (js ''B''))) 1)
     = Some 1"
  "map_option status (tasks (snd (submit 0 8 one_acceptance_db 1 2 (js ''B''))) 1)
     = Some ''closed''"
  "has_submission (snd (submit 0 8 one_acceptance_db 1 2 (js ''B''))) 1 2"
  using one_acceptance_db_fields(5)
  by (simp_all add: submit_passes [OF one_acceptance_db_fields(4) one_acceptance_db_fields(1)]
      one_acceptance_db_fields(1,3,6,7,8) pg_text_literal Number_of_BigInt_small Let_def
      has_submission_def count_correct_def)

text \<open>A task that accepts one answer is closed by the first correct submission.\<close>

theorem acceptances_never_exceed_max_witness:
  "acceptances_bounded one_acceptance_db 1
   \<and> map_option max_acceptances (tasks one_acceptance_db 1) = Some 1
   \<and> count_correct one_acceptance_db 1 = 0
   \<and> acceptances_bounded
       (submit_all one_acceptance_db (take 1 [(0, 8, 1, 2, js ''B''), (0, 8, 1, 3, js ''B'')])) 1
   \<and> is_correct (snd (fst (submit 0 8 one_acceptance_db 1 2 (js ''B'')))) = Some True
   \<and> map_option max_acceptances (tasks (snd (submit 0 8 one_acceptance_db 1 2 (js ''B''))) 1)
       = Some 1
   \<and> count_correct (snd (submit 0 8 one_acceptance_db 1 2 (js ''B''))) 1 = 1
   \<and> map_option status (tasks (snd (submit 0 8 one_acceptance_db 1 2 (js ''B''))) 1)
       = Some ''closed''
   \<and> map_option status
       (tasks (submit_all one_acceptance_db
                 (take 1 [(0, 8, 1, 2, js ''B''), (0, 8, 1, 3, js ''B'')])) 1)
       = Some ''closed''"
proof -
  have h: "acceptances_bounded one_acceptance_db 1"
    by (simp add: acceptances_bounded_def one_acceptance_db_fields)
  have m: "map_option max_acceptances (tasks one_acceptance_db 1) = Some 1"
    by (simp add: one_acceptance_db_fields)
  have i: "is_correct (snd (fst (submit 0 8 one_acceptance_db 1 2 (js ''B'')))) = Some True"
    by (simp add: one_acceptance_first_call json_settled_def)
  have a: "submit_all one_acceptance_db (take 1 [(0, 8, 1, 2, js ''B''), (0, 8, 1, 3, js ''B'')])
            = snd (submit 0 8 one_acceptance_db 1 2 (js ''B''))"
    by simp
  show ?thesis
    using h m i one_acceptance_first_call(2,3,4) one_acceptance_db_fields(1,2,8)
      acceptances_never_exceed_max
        [of one_acceptance_db 1 1 "[(0, 8, 1, 2, js ''B''), (0, 8, 1, 3, js ''B'')]"
            0 8 1 2 "js ''B''"]
    unfolding a
    by auto
qed

lemma zero_acceptances_db_fields:
  "fst (fst (official_handler (Some ''s3cret'') no_constraints
               (example_db (example_task None ''open'' 25) [])
               (example_request None (Some 0)))) = 200"
  "tasks zero_acceptances_db 2
     = Some (official_row (example_request None (Some 0))
               (pg_literal ''A or B?'') (pg_literal ''mcq'') None (pg_literal ''B''))"
  "submissions zero_acceptances_db = []"
  "count_correct zero_acceptances_db 2 = 0"
  by (simp_all add: zero_acceptances_db_def example_request_accepted json_created_def
      example_db_fields count_correct_def)

lemma zero_acceptances_row:
  "status (official_row (example_request None (Some 0)) q qt ch c) = ''open''"
  "max_acceptances (official_row (example_request None (Some 0)) q qt ch c) = 0"
  "reward_per_completion (official_row (example_request None (Some 0)) q qt ch c) = 0"
  "escrow_balance (official_row (example_request None (Some 0)) q qt ch c) = 0"
  "creator_id (official_row (example_request None (Some 0)) q qt ch c) = None"
  "starts_at (official_row (example_request None (Some 0)) q qt ch c) = None"
  "ends_at (official_row (example_request None (Some 0)) q qt ch c) = None"
  "question_type (official_row (example_request None (Some 0)) q qt ch c) = qt"
  "correct_answer (official_row (example_request None (Some 0)) q qt ch c) = c"
  by (simp_all add: official_row_def example_request_def)

text \<open>
  Claim C5 as the specification states it has the bound for every task.
  \<^verbatim>\<open>official.ts\<close> accepts a request with \<^verbatim>\<open>max_acceptances\<close> 0 and no reward, on a
  table without a constraint of its own; the task is \<open>open\<close>, and the first correct
  answer to it is accepted: one correct submission, with \<open>max_acceptances\<close> 0.
\<close>

theorem zero_max_acceptances_counterexample:
  "fst (fst (official_handler (Some ''s3cret'') no_constraints
               (example_db (example_task None ''open'' 25) [])
               (example_request None (Some 0)))) = 200
   \<and> map_option max_acceptances (tasks zero_acceptances_db 2) = Some 0
   \<and> map_option status (tasks zero_acceptances_db 2) = Some ''open''
   \<and> count_correct zero_acceptances_db 2 = 0
   \<and> fst (submit 0 8 zero_acceptances_db 2 3 (js ''B'')) = json_settled True 0
   \<and> count_correct (snd (submit 0 8 zero_acceptances_db 2 3 (js ''B''))) 2 = 1
   \<and> map_option max_acceptances (tasks (snd (submit 0 8 zero_acceptances_db 2 3 (js ''B''))) 2)
       = Some 0"
proof -
  note t = zero_acceptances_db_fields(2)
  have p: "precondition_failure 0 zero_acceptances_db 2 3 = None"
    by (simp add: precondition_failure_def t zero_acceptances_row has_submission_def
        zero_acceptances_db_fields)
  have v: "validate_answer
      (text_of (question_type (official_row (example_request None (Some 0))
               (pg_literal ''A or B?'') (pg_literal ''mcq'') None (pg_literal ''B''))))
      (js ''B'')
      (text_of (correct_answer (official_row (example_request None (Some 0))
               (pg_literal ''A or B?'') (pg_literal ''mcq'') None (pg_literal ''B''))))"
    using example_validates_stored(2) by (simp add: zero_acceptances_row)
  note ev = submit_passes [OF p t] zero_acceptances_row zero_acceptances_db_fields(2,3)
    pg_text_literal Number_of_BigInt_small Let_def count_correct_def
  have s1: "fst (submit 0 8 zero_acceptances_db 2 3 (js ''B'')) = json_settled True 0"
    using v by (simp add: ev)
  have s2: "count_correct (snd (submit 0 8 zero_acceptances_db 2 3 (js ''B''))) 2 = 1"
    using v by (simp add: ev)
  have s3: "map_option max_acceptances
              (tasks (snd (submit 0 8 zero_acceptances_db 2 3 (js ''B''))) 2) = Some 0"
    using v by (simp add: ev)
  show ?thesis
    using s1 s2 s3 by (simp add: zero_acceptances_db_fields zero_acceptances_row)
qed

section \<open>One submission for a task and a user\<close>

text \<open>
  Claim C4, as amended. If the submissions hold at most one row for every task and user,
  they do after any sequence of \<^verbatim>\<open>submit\<close> calls. A call by a user who has a
  submission for the task changes nothing and is answered with an error, never with an
  award; the error is the one for a repeated submission when the five earlier checks
  pass, and the error of the first failing earlier check otherwise.
\<close>

theorem one_submission_per_task_and_user:
  "(one_submission_per_pair db \<longrightarrow> one_submission_per_pair (submit_all db calls))
   \<and> (has_submission db task_id userId \<longrightarrow>
        snd (submit now dbNow db task_id userId answer) = db
        \<and> \<not> success (snd (fst (submit now dbNow db task_id userId answer))))
   \<and> (precondition_failure now db task_id userId = Some AlreadySubmitted \<longrightarrow>
        submit now dbNow db task_id userId answer = (error_response AlreadySubmitted, db))
   \<and> (has_submission db task_id userId \<and> userId \<noteq> 0 \<longrightarrow>
        (\<exists>e. precondition_failure now db task_id userId = Some e
           \<and> submit now dbNow db task_id userId answer = (error_response e, db)))"
proof (intro conjI impI)
  assume "one_submission_per_pair db"
  then show "one_submission_per_pair (submit_all db calls)"
    by (rule submit_all_one_submission_per_pair)
next
  assume h: "has_submission db task_id userId"
  show "snd (submit now dbNow db task_id userId answer) = db"
    using h by (cases rule: submit_cases [of now dbNow db task_id userId answer]) simp_all
  show "\<not> success (snd (fst (submit now dbNow db task_id userId answer)))"
    using h
    by (cases rule: submit_cases [of now dbNow db task_id userId answer])
       (auto simp: json_error_def)
next
  assume p: "precondition_failure now db task_id userId = Some AlreadySubmitted"
  then obtain t where t: "tasks db task_id = Some t"
    by (auto simp: precondition_failure_def split: option.splits)
  have f: "status t = ''open''"
      "\<not> (case starts_at t of None \<Rightarrow> False | Some s \<Rightarrow> now < s)"
      "\<not> (case ends_at t of None \<Rightarrow> False | Some e \<Rightarrow> e < now)"
      "creator_id t \<noteq> Some userId"
      "has_submission db task_id userId"
    using p t unfolding precondition_failure_def
    by (auto split: if_splits option.splits)
  have c: "\<not> (case creator_id t of None \<Rightarrow> False | Some c \<Rightarrow> c \<noteq> 0 \<and> c = userId)"
    using f(4) by (auto split: option.splits)
  have s: "select_submissions db task_id userId \<noteq> []"
    using f(5) select_submissions_nonempty [of db task_id userId] by auto
  show "submit now dbNow db task_id userId answer = (error_response AlreadySubmitted, db)"
    unfolding submit_def BEGIN_def ROLLBACK_def select_task_def Let_def
    using s by (simp add: t f(1) f(2) f(3) c)
next
  assume h: "has_submission db task_id userId \<and> userId \<noteq> 0"
  then have "precondition_failure now db task_id userId \<noteq> None"
    by (simp add: precondition_failure_def split: option.splits)
  then obtain e where e: "precondition_failure now db task_id userId = Some e"
    by blast
  with h have "submit now dbNow db task_id userId answer = (error_response e, db)"
    by (intro submit_rejects) simp_all
  with e show "\<exists>e. precondition_failure now db task_id userId = Some e
           \<and> submit now dbNow db task_id userId answer = (error_response e, db)"
    by blast
qed

text \<open>User 2 has a correct submission for the open example task and submits again.\<close>

theorem one_submission_per_task_and_user_witness:
  "one_submission_per_pair
     (example_db (example_task None ''open'' 15) [example_submission 2 True 10])
   \<and> (2::int) \<noteq> 0
   \<and> has_submission
       (example_db (example_task None ''open'' 15) [example_submission 2 True 10]) 1 2
   \<and> precondition_failure 0
       (example_db (example_task None ''open'' 15) [example_submission 2 True 10]) 1 2
       = Some AlreadySubmitted
   \<and> one_submission_per_pair
       (submit_all (example_db (example_task None ''open'' 15) [example_submission 2 True 10])
          [(0, 8, 1, 2, js ''B'')])
   \<and> submit 0 8 (example_db (example_task None ''open'' 15) [example_submission 2 True 10])
        1 2 (js ''B'')
       = (error_response AlreadySubmitted,
          example_db (example_task None ''open'' 15) [example_submission 2 True 10])"
proof -
  have o: "one_submission_per_pair
     (example_db (example_task None ''open'' 15) [example_submission 2 True 10])"
    by (simp add: one_submission_per_pair_def example_db_def)
  have h: "has_submission
       (example_db (example_task None ''open'' 15) [example_submission 2 True 10]) 1 2"
    by (simp add: has_submission_def example_db_def example_submission_def)
  have p: "precondition_failure 0
       (example_db (example_task None ''open'' 15) [example_submission 2 True 10]) 1 2
       = Some AlreadySubmitted"
    using h by (simp add: precondition_failure_def) (simp add: example_db_def example_task_def)
  show ?thesis
    using o h p
      one_submission_per_task_and_user
        [of "example_db (example_task None ''open'' 15) [example_submission 2 True 10]"
            "[(0, 8, 1, 2, js ''B'')]" 1 2 0 8 "js ''B''"]
    by simp
qed

text \<open>
  Claim C4 as the specification states it has such a call always answered with the
  error for a repeated submission. On the task that accepts one answer, the correct
  answer of user 2 is accepted and closes the task; the same user's next call is
  answered with the error for a task that is not open.
\<close>

theorem resubmission_to_closed_task_counterexample:
  "fst (submit 0 8 one_acceptance_db 1 2 (js ''B'')) = json_settled True 10
   \<and> has_submission (snd (submit 0 8 one_acceptance_db 1 2 (js ''B''))) 1 2
   \<and> fst (submit 0 8 (snd (submit 0 8 one_acceptance_db 1 2 (js ''B''))) 1 2 (js ''B''))
       = json_error 400 ''task is not open''
   \<and> fst (submit 0 8 (snd (submit 0 8 one_acceptance_db 1 2 (js ''B''))) 1 2 (js ''B''))
       \<noteq> error_response AlreadySubmitted"
proof -
  note r = one_acceptance_first_call(1)
  note h = one_acceptance_first_call(5)
  from one_acceptance_first_call(4)
  obtain t' where t': "tasks (snd (submit 0 8 one_acceptance_db 1 2 (js ''B''))) 1 = Some t'"
    and st: "status t' = ''closed''"
    by auto
  have "precondition_failure 0 (snd (submit 0 8 one_acceptance_db 1 2 (js ''B''))) 1 2
          = Some TaskClosed"
    by (simp add: precondition_failure_def t' st)
  then have e: "fst (submit 0 8 (snd (submit 0 8 one_acceptance_db 1 2 (js ''B''))) 1 2 (js ''B''))
       = json_error 400 ''task is not open''"
    by (simp add: submit_rejects)
  show ?thesis
    using r h e by (simp add: json_error_def)
qed

section \<open>Tasks created by \<^verbatim>\<open>official.ts\<close>\<close>

text \<open>
  Claim C9, as amended. A request that the handler accepts (status 200) creates a task
  that satisfies the table's constraints, has an escrow balance of 0 and the status
  \<open>open\<close>, and has the \<^verbatim>\<open>reward_per_completion\<close> and \<^verbatim>\<open>max_acceptances\<close> of the
  request (0 and 1 when the request leaves them out). The handler does not check the
  two numbers: they are non-negative when those of the request are.
\<close>

theorem official_task_shape:
  assumes "fst (fst (official_handler adminSecret row_ok db req)) = 200"
  shows "case official_handler adminSecret row_ok db req of (resp, db') \<Rightarrow>
           (\<exists>new_id t. taskId (snd resp) = Some new_id \<and> tasks db' new_id = Some t
              \<and> row_ok t
              \<and> escrow_balance t = 0 \<and> status t = ''open''
              \<and> reward_per_completion t
                  = (case o_reward_per_completion req of None \<Rightarrow> 0 | Some r \<Rightarrow> r)
              \<and> max_acceptances t
                  = (case o_max_acceptances req of None \<Rightarrow> 1 | Some m \<Rightarrow> m)
              \<and> ((case o_reward_per_completion req of None \<Rightarrow> True | Some r \<Rightarrow> 0 \<le> r)
                   \<longrightarrow> 0 \<le> reward_per_completion t)
              \<and> ((case o_max_acceptances req of None \<Rightarrow> True | Some m \<Rightarrow> 0 \<le> m)
                   \<longrightarrow> 0 \<le> max_acceptances t))"
proof -
  from assms obtain q qtype ch correct where
    h: "official_handler adminSecret row_ok db req =
         (json_created (tasks_id_seq db + 1),
          db\<lparr>tasks_id_seq := tasks_id_seq db + 1,
             tasks := (tasks db)(tasks_id_seq db + 1 \<mapsto> official_row req q qtype ch correct)\<rparr>)"
    and r: "row_ok (official_row req q qtype ch correct)"
    by (rule official_handler_accepted)
  show ?thesis
    using r by (auto simp: h json_created_def official_row_def split: option.splits)
qed

text \<open>A request with the reward 10 and no \<^verbatim>\<open>max_acceptances\<close>; the new task is task 2.\<close>

theorem official_task_shape_witness:
  "fst (fst (official_handler (Some ''s3cret'') no_constraints
               (example_db (example_task None ''open'' 25) [])
               (example_request (Some 10) None))) = 200
   \<and> (case o_reward_per_completion (example_request (Some 10) None) of
         None \<Rightarrow> True | Some r \<Rightarrow> 0 \<le> r)
   \<and> (case o_max_acceptances (example_request (Some 10) None) of
         None \<Rightarrow> True | Some m \<Rightarrow> 0 \<le> m)
   \<and> (case official_handler (Some ''s3cret'') no_constraints
               (example_db (example_task None ''open'' 25) [])
               (example_request (Some 10) None) of
        (resp, db') \<Rightarrow>
          taskId (snd resp) = Some 2
          \<and> map_option escrow_balance (tasks db' 2) = Some 0
          \<and> map_option status (tasks db' 2) = Some ''open''
          \<and> map_option reward_per_completion (tasks db' 2) = Some 10
          \<and> map_option max_acceptances (tasks db' 2) = Some 1)"
proof -
  have a: "fst (fst (official_handler (Some ''s3cret'') no_constraints
               (example_db (example_task None ''open'' 25) [])
               (example_request (Some 10) None))) = 200"
    by (simp add: example_request_accepted json_created_def)
  have r: "o_reward_per_completion (example_request (Some 10) None) = Some 10"
      "o_max_acceptances (example_request (Some 10) None) = None"
    by (simp_all add: example_request_def)
  show ?thesis
    using a official_task_shape [OF a]
    by (auto simp: r example_request_accepted json_created_def split: prod.splits)
qed

text \<open>
  Claim C9 as the specification states it has every accepted request produce a task
  with a non-negative reward. On a table without a constraint of its own, the request
  with the reward \<open>-5\<close> is accepted and the task has the reward \<open>-5\<close>.
\<close>

theorem official_negative_reward_counterexample:
  "fst (fst (official_handler (Some ''s3cret'') no_constraints
               (example_db (example_task None ''open'' 25) [])
               (example_request (Some (- 5)) None))) = 200
   \<and> map_option reward_per_completion
        (tasks (snd (official_handler (Some ''s3cret'') no_constraints
                       (example_db (example_task None ''open'' 25) [])
                       (example_request (Some (- 5)) None))) 2) = Some (- 5)
   \<and> \<not> (0::int) \<le> - 5"
  by (simp add: example_request_accepted json_created_def)
     (simp add: official_row_def example_request_def)

text \<open>
  Claim C10. A task created by \<^verbatim>\<open>official.ts\<close> has an escrow balance of 0 and no
  creator. So, while the task is as created and its reward is positive, every
  \<^verbatim>\<open>submit\<close> call with a correct answer whose preconditions pass is answered with the
  insufficient-escrow error and awards nothing: the database is as before the call.
\<close>

theorem official_task_unfunded:
  assumes "fst (fst (official_handler adminSecret row_ok db req)) = 200"
  shows "case official_handler adminSecret row_ok db req of (resp, db1) \<Rightarrow>
           (\<exists>new_id t. taskId (snd resp) = Some new_id \<and> tasks db1 new_id = Some t
              \<and> escrow_balance t = 0 \<and> creator_id t = None
              \<and> (\<forall>db2 now dbNow userId answer.
                    tasks db2 new_id = Some t
                    \<and> 0 < reward_per_completion t
                    \<and> precondition_failure now db2 new_id userId = None
                    \<and> validate_answer (text_of (question_type t)) answer
                        (text_of (correct_answer t))
                    \<longrightarrow> submit now dbNow db2 new_id userId answer
                          = (error_response InsufficientEscrow, db2)))"
proof -
  from assms obtain q qtype ch correct where
    h: "official_handler adminSecret row_ok db req =
         (json_created (tasks_id_seq db + 1),
          db\<lparr>tasks_id_seq := tasks_id_seq db + 1,
             tasks := (tasks db)(tasks_id_seq db + 1 \<mapsto> official_row req q qtype ch correct)\<rparr>)"
    by (rule official_handler_accepted)
  define row where "row = official_row req q qtype ch correct"
  have e: "escrow_balance row = 0" "creator_id row = None"
    by (simp_all add: row_def official_row_def)
  have "submit now dbNow db2 (tasks_id_seq db + 1) userId answer
          = (error_response InsufficientEscrow, db2)"
    if "tasks db2 (tasks_id_seq db + 1) = Some row"
      and "0 < reward_per_completion row"
      and "precondition_failure now db2 (tasks_id_seq db + 1) userId = None"
      and "validate_answer (text_of (question_type row)) answer (text_of (correct_answer row))"
    for db2 now dbNow userId answer
    using that e(1) by (intro submit_insufficient_escrow [where t = row]) simp_all
  then show ?thesis
    using e by (simp add: h json_created_def row_def [symmetric])
qed

text \<open>
  The task created from the example request with the reward 10 is task 2; user 3
  answers it correctly right after its creation.
\<close>

theorem official_task_unfunded_witness:
  "fst (fst (official_handler (Some ''s3cret'') no_constraints
               (example_db (example_task None ''open'' 25) [])
               (example_request (Some 10) None))) = 200
   \<and> tasks (snd (official_handler (Some ''s3cret'') no_constraints
               (example_db (example_task None ''open'' 25) [])
               (example_request (Some 10) None))) 2
       = Some (official_row (example_request (Some 10) None)
                 (pg_literal ''A or B?'') (pg_literal ''mcq'') None (pg_literal ''B''))
   \<and> 0 < reward_per_completion
           (official_row (example_request (Some 10) None)
              (pg_literal ''A or B?'') (pg_literal ''mcq'') None (pg_literal ''B''))
   \<and> precondition_failure 0
        (snd (official_handler (Some ''s3cret'') no_constraints
               (example_db (example_task None ''open'' 25) [])
               (example_request (Some 10) None))) 2 3 = None
   \<and> validate_answer (text_of (pg_literal ''mcq'')) (js '' B'') (text_of (pg_literal ''B''))
   \<and> submit 0 8
        (snd (official_handler (Some ''s3cret'') no_constraints
               (example_db (example_task None ''open'' 25) [])
               (example_request (Some 10) None))) 2 3 (js '' B'')
       = (error_response InsufficientEscrow,
          snd (official_handler (Some ''s3cret'') no_constraints
               (example_db (example_task None ''open'' 25) [])
               (example_request (Some 10) None)))"
proof -
  have a: "fst (fst (official_handler (Some ''s3cret'') no_constraints
               (example_db (example_task None ''open'' 25) [])
               (example_request (Some 10) None))) = 200"
    by (simp add: example_request_accepted json_created_def)
  have t: "tasks (snd (official_handler (Some ''s3cret'') no_constraints
               (example_db (example_task None ''open'' 25) [])
               (example_request (Some 10) None))) 2
       = Some (official_row (example_request (Some 10) None)
                 (pg_literal ''A or B?'') (pg_literal ''mcq'') None (pg_literal ''B''))"
    by (simp add: example_request_accepted)
  have r: "0 < reward_per_completion
                 (official_row (example_request (Some 10) None)
                    (pg_literal ''A or B?'') (pg_literal ''mcq'') None (pg_literal ''B''))"
    by (simp add: official_row_def example_request_def)
  have s: "submissions (snd (official_handler (Some ''s3cret'') no_constraints
               (example_db (example_task None ''open'' 25) [])
               (example_request (Some 10) None))) = []"
    by (simp add: example_request_accepted) (simp add: example_db_def)
  have p: "precondition_failure 0
        (snd (official_handler (Some ''s3cret'') no_constraints
               (example_db (example_task None ''open'' 25) [])
               (example_request (Some 10) None))) 2 3 = None"
    by (simp add: precondition_failure_def t has_submission_def s)
       (simp add: official_row_def example_request_def)
  have v: "validate_answer (text_of (pg_literal ''mcq'')) (js '' B'') (text_of (pg_literal ''B''))"
    by (rule example_validates_stored)
  have q: "question_type (official_row (example_request (Some 10) None)
             (pg_literal ''A or B?'') (pg_literal ''mcq'') None (pg_literal ''B''))
           = pg_literal ''mcq''"
      "correct_answer (official_row (example_request (Some 10) None)
             (pg_literal ''A or B?'') (pg_literal ''mcq'') None (pg_literal ''B''))
           = pg_literal ''B''"
    by (simp_all add: official_row_def)
  show ?thesis
    using a t r p v official_task_unfunded [OF a]
    by (auto simp: example_request_accepted json_created_def q split: prod.splits)
qed

end
